theory Spec2Isabelle
  imports Complex_Main
begin

unbundle bit_operations_syntax

section \<open>C strings, characters and machine integers\<close>

text \<open>
  The program is \<^verbatim>\<open>src/qtip_parse.cpp\<close>. Its strings are NUL-terminated \<^verbatim>\<open>char *\<close>
  buffers; a string is modelled by the list of its characters before the terminator, and
  a pointer into a string by the list of the characters from the pointer on. Reading at
  the terminator gives the NUL character.
\<close>

datatype error =
    AssertFail    \<comment> \<open>an \<^verbatim>\<open>assert\<close> of the source fails: the process aborts\<close>
  | Throw         \<comment> \<open>\<^verbatim>\<open>throw 1\<close>, never caught: the process terminates\<close>
  | OutOfRange    \<comment> \<open>an \<^verbatim>\<open>EList\<close> is indexed at or beyond its size\<close>
  | PastEnd       \<comment> \<open>a pointer is moved beyond the terminator of its string\<close>

fun deref :: "string \<Rightarrow> char" where
  "deref [] = CHR 0x00"
| "deref (c # cs) = c"

definition cstr_at :: "string \<Rightarrow> nat \<Rightarrow> char" where
  \<comment> \<open>\<^verbatim>\<open>s[i]\<close> for \<^verbatim>\<open>i\<close> up to the terminator\<close>
  "cstr_at s i = (if i < length s then s ! i else CHR 0x00)"

definition c_int :: "char \<Rightarrow> int" where
  \<comment> \<open>\<^verbatim>\<open>(int)c\<close>, \<^verbatim>\<open>char\<close> being signed\<close>
  "c_int c = (if (of_char c :: nat) < 128 then int (of_char c) else int (of_char c) - 256)"

definition isdigit :: "char \<Rightarrow> bool" where
  "isdigit c \<longleftrightarrow> (48::nat) \<le> of_char c \<and> (of_char c :: nat) \<le> 57"

definition isspace :: "char \<Rightarrow> bool" where
  "isspace c \<longleftrightarrow> (of_char c :: nat) = 32 \<or> ((9::nat) \<le> of_char c \<and> (of_char c :: nat) \<le> 13)"

definition digit_val :: "char \<Rightarrow> nat" where
  \<comment> \<open>\<^verbatim>\<open>(int)(c - '0')\<close> for a digit\<close>
  "digit_val c = of_char c - 48"

definition size_t :: "int \<Rightarrow> nat" where
  \<comment> \<open>the value of a 64-bit \<^verbatim>\<open>size_t\<close> expression: arithmetic wraps modulo \<open>2 ^ 64\<close>\<close>
  "size_t i = nat (i mod 2 ^ 64)"

definition int32 :: "int \<Rightarrow> int" where
  \<comment> \<open>the conversion \<^verbatim>\<open>(int)x\<close> to a 32-bit two's complement \<^verbatim>\<open>int\<close>\<close>
  "int32 i = (i + 2 ^ 31) mod 2 ^ 32 - 2 ^ 31"

definition c_abs :: "int \<Rightarrow> int" where
  \<comment> \<open>\<^verbatim>\<open>abs\<close> on \<^verbatim>\<open>int\<close>; the most negative value has no positive counterpart\<close>
  "c_abs i = int32 \<bar>i\<bar>"

section \<open>The alignment record\<close>

record OpRunOffset =
  op :: nat
  run :: nat
  offset :: int

text \<open>
  \<^verbatim>\<open>struct Alignment\<close>. The fields that only hold the raw text of a column already
  parsed into another field (\<^verbatim>\<open>cigar\<close>, \<^verbatim>\<open>mdz\<close>, \<^verbatim>\<open>seq\<close>, \<^verbatim>\<open>rnext\<close>,
  \<^verbatim>\<open>pnext\<close>) and the buffers of the stacked alignment are left out. Run lengths and
  clip lengths are \<^verbatim>\<open>int\<close> in the source and are only ever assigned numbers read from
  decimal digits; they are natural numbers here. The field \<^verbatim>\<open>typ\<close> is named \<open>typ'\<close>.
\<close>

record alignment =
  rest_of_line :: string
  valid :: bool
  qname :: string
  typ' :: "string option"
  flag :: int
  rname :: string
  pos :: nat
  mapq :: int
  len :: nat
  qual :: string
  tot_clipped_qual :: nat
  tot_aligned_qual :: nat
  avg_clipped_qual :: real
  avg_aligned_qual :: real
  cigar_equal_x :: bool
  best_score :: int
  left_clip :: nat
  right_clip :: nat
  correct :: int
  line :: nat
  edit_xscript :: string
  cigar_ops :: string
  cigar_run :: "nat list"
  mdz_oro :: "OpRunOffset list"

definition clear :: alignment where
  "clear = \<lparr> rest_of_line = [], valid = False, qname = [], typ' = None, flag = 0,
     rname = [], pos = 0, mapq = 0, len = 0, qual = [], tot_clipped_qual = 0,
     tot_aligned_qual = 0, avg_clipped_qual = 0, avg_aligned_qual = 0,
     cigar_equal_x = False, best_score = 0, left_clip = 0, right_clip = 0,
     correct = - 1, line = 0, edit_xscript = [], cigar_ops = [], cigar_run = [],
     mdz_oro = [] \<rparr>"

definition is_aligned :: "alignment \<Rightarrow> bool" where
  "is_aligned al \<longleftrightarrow> flag al AND 4 = 0"

definition is_fw :: "alignment \<Rightarrow> bool" where
  "is_fw al \<longleftrightarrow> flag al AND 16 = 0"

definition is_concordant :: "alignment \<Rightarrow> bool" where
  "is_concordant al \<longleftrightarrow> flag al AND 2 \<noteq> 0"

definition is_paired :: "alignment \<Rightarrow> bool" where
  "is_paired al \<longleftrightarrow> flag al AND 1 \<noteq> 0"

definition mate_flag :: "alignment \<Rightarrow> char" where
  "mate_flag al =
     (if flag al AND 64 \<noteq> 0 then CHR ''1''
      else if flag al AND 128 \<noteq> 0 then CHR ''2'' else CHR ''0'')"

section \<open>Quality sums: \<^verbatim>\<open>Alignment::calc_qual_averages\<close>\<close>

text \<open>
  The loop over \<^verbatim>\<open>i = 0 .. len - 1\<close>, with the running values of
  \<^verbatim>\<open>tot_clipped_qual\<close> and \<^verbatim>\<open>tot_aligned_qual\<close>. The two assertions before the loop
  give \<^verbatim>\<open>left_clip + right_clip < len\<close>, so \<^verbatim>\<open>len - 1 - right_clip\<close> does not wrap.
\<close>

function qual_loop :: "alignment \<Rightarrow> nat \<Rightarrow> nat \<Rightarrow> nat \<Rightarrow> error + nat \<times> nat" where
  "qual_loop al i tc ta =
     (if i < len al then
        (if \<not> 33 \<le> c_int (cstr_at (qual al) i) then Inl AssertFail
         else if i < left_clip al \<or> len al - 1 - right_clip al \<le> i
           then qual_loop al (i + 1) (tc + nat (c_int (cstr_at (qual al) i) - 33)) ta
           else qual_loop al (i + 1) tc (ta + nat (c_int (cstr_at (qual al) i) - 33)))
      else Inr (tc, ta))"
  by pat_completeness auto
termination
  by (relation "measure (\<lambda>(al, i, tc, ta). len al - i)") auto

definition calc_qual_averages :: "alignment \<Rightarrow> error + alignment" where
  "calc_qual_averages al =
     (if \<not> 0 < len al then Inl AssertFail
      else let nclipped = left_clip al + right_clip al in
        if \<not> nclipped < len al then Inl AssertFail
        else case qual_loop al 0 0 0 of
          Inl e \<Rightarrow> Inl e
        | Inr (tc, ta) \<Rightarrow>
            let al' = al \<lparr> tot_clipped_qual := tc, tot_aligned_qual := ta,
                           avg_aligned_qual := real ta / real (len al - nclipped) \<rparr>
            in if 1 < nclipped
               then Inr (al' \<lparr> avg_clipped_qual := real tc / real nclipped \<rparr>)
               else Inr (al' \<lparr> avg_clipped_qual := 100, tot_clipped_qual := 0,
                               left_clip := 0, right_clip := 0 \<rparr>))"

text \<open>
  The sums as the specification words them: the clipped sum ranges over the
  \<^verbatim>\<open>left_clip\<close> leftmost and the \<^verbatim>\<open>right_clip\<close> rightmost bases, the aligned sum over the
  bases between them.
\<close>

definition qual_sum :: "string \<Rightarrow> nat" where
  "qual_sum qs = sum_list (map (\<lambda>c. nat (c_int c - 33)) qs)"

definition spec_tot_clipped_qual :: "alignment \<Rightarrow> nat" where
  "spec_tot_clipped_qual al =
     qual_sum (take (left_clip al) (take (len al) (qual al)))
     + qual_sum (drop (len al - right_clip al) (take (len al) (qual al)))"

definition spec_tot_aligned_qual :: "alignment \<Rightarrow> nat" where
  "spec_tot_aligned_qual al =
     qual_sum (drop (left_clip al) (take (len al - right_clip al) (qual al)))"

section \<open>Edit transcripts\<close>

subsection \<open>The direct path: \<^verbatim>\<open>Alignment::cigar_to_edit_xscript\<close>\<close>

text \<open>
  The loop over the CIGAR runs, \<^verbatim>\<open>i\<close> the index and \<open>xs\<close> the transcript built so far.
  \<^verbatim>\<open>cigar_ops\<close> and \<^verbatim>\<open>cigar_run\<close> are parallel lists.
\<close>

function cigar_to_edit_xscript_loop :: "alignment \<Rightarrow> nat \<Rightarrow> string \<Rightarrow> error + string" where
  "cigar_to_edit_xscript_loop al i xs =
     (if i < length (cigar_run al) then
        (if \<not> i < length (cigar_ops al) then Inl OutOfRange
         else let cop = cigar_ops al ! i; crun = cigar_run al ! i in
           if \<not> (cop \<noteq> CHR ''M'' \<and> cop \<noteq> CHR ''P'') then Inl AssertFail
           else cigar_to_edit_xscript_loop al (i + 1) (xs @ replicate crun cop))
      else Inr xs)"
  by pat_completeness auto
termination
  by (relation "measure (\<lambda>(al, i, xs). length (cigar_run al) - i)") auto

definition cigar_to_edit_xscript :: "alignment \<Rightarrow> error + alignment" where
  "cigar_to_edit_xscript al =
     (if \<not> cigar_equal_x al then Inl AssertFail
      else if \<not> edit_xscript al = [] then Inl AssertFail
      else case cigar_to_edit_xscript_loop al 0 [] of
        Inl e \<Rightarrow> Inl e
      | Inr xs \<Rightarrow> Inr (al \<lparr> edit_xscript := xs @ [CHR 0x00] \<rparr>))"

subsection \<open>The reconciliation path: \<^verbatim>\<open>Alignment::cigar_and_mdz_to_edit_xscript\<close>\<close>

text \<open>
  The inner loop of an \<^verbatim>\<open>M\<close> run: \<open>oro\<close> is \<^verbatim>\<open>mdz_oro\<close> (the loop shortens the run
  at the cursor when it splits it), \<open>mdo\<close> the cursor, \<open>runleft\<close> what is left of the
  \<^verbatim>\<open>M\<close> run. The locals \<^verbatim>\<open>mdrun\<close> and \<^verbatim>\<open>rdoff\<close> are written and never read; they
  are left out.
\<close>

function mdz_m_loop ::
  "OpRunOffset list \<Rightarrow> nat \<Rightarrow> nat \<Rightarrow> string \<Rightarrow> error + OpRunOffset list \<times> nat \<times> string" where
  "mdz_m_loop oro mdo runleft xs =
     (if 0 < runleft \<and> mdo < length oro then
        (let op_m = op (oro ! mdo); run_m = run (oro ! mdo); run_comb = min runleft run_m in
           if \<not> (op_m = 0 \<or> op_m = 1) then Inl AssertFail
           else if op_m \<noteq> 0 \<and> \<not> run_m = run_comb then Inl AssertFail
           else if run_comb < run_m then
             (if \<not> op_m = 0 then Inl AssertFail
              else mdz_m_loop (oro[mdo := (oro ! mdo) \<lparr> run := run_m - run_comb \<rparr>]) mdo
                     (runleft - run_comb) (xs @ replicate run_comb (CHR ''='')))
           else mdz_m_loop oro (mdo + 1) (runleft - run_comb)
                  (xs @ (if op_m = 0 then replicate run_comb (CHR ''='')
                         else replicate run_m (CHR ''X''))))
      else Inr (oro, mdo, xs))"
  by pat_completeness auto
termination
  by (relation "measure (\<lambda>(oro, mdo, runleft, xs). runleft + (length oro - mdo))")
     (auto simp: min_def split: if_splits)

text \<open>
  The body of the loop over the CIGAR runs, for the run \<open>crun\<close> of the operation
  \<open>cop\<close>, and the loop itself.
\<close>

definition cigar_and_mdz_step ::
  "char \<Rightarrow> nat \<Rightarrow> OpRunOffset list \<Rightarrow> nat \<Rightarrow> string
     \<Rightarrow> error + OpRunOffset list \<times> nat \<times> string" where
  "cigar_and_mdz_step cop crun oro mdo xs =
     (if \<not> (cop \<noteq> CHR ''X'' \<and> cop \<noteq> CHR ''='') then Inl AssertFail
      else if cop = CHR ''M'' then mdz_m_loop oro mdo crun xs
      else if cop = CHR ''I'' then Inr (oro, mdo, xs @ replicate crun (CHR ''I''))
      else if cop = CHR ''D'' then
        (if \<not> mdo < length oro then Inl OutOfRange
         else let op_m = op (oro ! mdo); run_m = run (oro ! mdo) in
           if \<not> op_m = 2 then Inl AssertFail
           else if \<not> crun = run_m then Inl AssertFail
           else Inr (oro, mdo + 1, xs @ replicate run_m (CHR ''D'')))
      else if cop = CHR ''N'' then Inr (oro, mdo, xs @ replicate crun (CHR ''N''))
      else if cop = CHR ''S'' then Inr (oro, mdo, xs @ replicate crun (CHR ''S''))
      else if cop = CHR ''H'' then Inr (oro, mdo, xs)
      else Inl Throw)"

function cigar_and_mdz_loop ::
  "alignment \<Rightarrow> nat \<Rightarrow> OpRunOffset list \<Rightarrow> nat \<Rightarrow> string
     \<Rightarrow> error + OpRunOffset list \<times> nat \<times> string" where
  "cigar_and_mdz_loop al i oro mdo xs =
     (if i < length (cigar_run al) then
        (if \<not> i < length (cigar_ops al) then Inl OutOfRange
         else case cigar_and_mdz_step (cigar_ops al ! i) (cigar_run al ! i) oro mdo xs of
           Inl e \<Rightarrow> Inl e
         | Inr (oro', mdo', xs') \<Rightarrow> cigar_and_mdz_loop al (i + 1) oro' mdo' xs')
      else Inr (oro, mdo, xs))"
  by pat_completeness auto
termination
  by (relation "measure (\<lambda>(al, i, oro, mdo, xs). length (cigar_run al) - i)") auto

text \<open>
  The states the loop passes through on its way from the first CIGAR run: the index of
  the run it is about to read, \<^verbatim>\<open>mdz_oro\<close>, the cursor and the transcript so far.
\<close>

inductive reaches :: "alignment \<Rightarrow> nat \<Rightarrow> OpRunOffset list \<Rightarrow> nat \<Rightarrow> string \<Rightarrow> bool" where
  start: "reaches al 0 (mdz_oro al) 0 []"
| step: "reaches al i oro mdo xs \<Longrightarrow> i < length (cigar_run al) \<Longrightarrow> i < length (cigar_ops al)
     \<Longrightarrow> cigar_and_mdz_step (cigar_ops al ! i) (cigar_run al ! i) oro mdo xs = Inr (oro', mdo', xs')
     \<Longrightarrow> reaches al (i + 1) oro' mdo' xs'"

definition cigar_and_mdz_to_edit_xscript :: "alignment \<Rightarrow> error + alignment" where
  "cigar_and_mdz_to_edit_xscript al =
     (if \<not> \<not> cigar_equal_x al then Inl AssertFail
      else if \<not> edit_xscript al = [] then Inl AssertFail
      else case cigar_and_mdz_loop al 0 (mdz_oro al) 0 [] of
        Inl e \<Rightarrow> Inl e
      | Inr (oro, mdo, xs) \<Rightarrow>
          if \<not> mdo = length oro then Inl AssertFail
          else Inr (al \<lparr> mdz_oro := oro, edit_xscript := xs @ [CHR 0x00] \<rparr>))"

section \<open>Fragment length\<close>

definition lpos :: "alignment \<Rightarrow> error + nat" where
  "lpos al =
     (if \<not> \<not> cigar_ops al = [] then Inl AssertFail
      else Inr (size_t (int (pos al) - int (left_clip al))))"

text \<open>
  \<^verbatim>\<open>Alignment::rpos\<close> walks \<^verbatim>\<open>edit_xscript\<close>, which holds the transcript and its
  terminator. \<open>rpos_skip\<close> is \<^verbatim>\<open>while(*xs++ == 'S');\<close>: the pointer is moved on after
  every comparison, the failing one included. \<open>rpos_count\<close> is the second loop.
\<close>

fun rpos_skip :: "string \<Rightarrow> error + string" where
  "rpos_skip [] = Inl PastEnd"
| "rpos_skip (c # cs) = (if c = CHR ''S'' then rpos_skip cs else Inr cs)"

fun rpos_count :: "string \<Rightarrow> nat \<Rightarrow> error + nat" where
  "rpos_count [] mv = Inl PastEnd"
| "rpos_count (c # cs) mv =
     (if c \<noteq> CHR 0x00 then
        rpos_count cs
          (if c = CHR ''S'' \<or> c = CHR ''D'' \<or> c = CHR ''X'' \<or> c = CHR ''='' then mv + 1 else mv)
      else Inr mv)"

definition rpos :: "alignment \<Rightarrow> error + nat" where
  "rpos al =
     (if \<not> \<not> edit_xscript al = [] then Inl AssertFail
      else case rpos_skip (edit_xscript al) of
        Inl e \<Rightarrow> Inl e
      | Inr xs \<Rightarrow>
          (case xs of
             [] \<Rightarrow> Inl PastEnd
           | c # cs \<Rightarrow>
               if \<not> c \<noteq> CHR 0x00 then Inl AssertFail
               else (case rpos_count xs 0 of
                       Inl e \<Rightarrow> Inl e
                     | Inr mv \<Rightarrow> Inr (size_t (int (pos al) + int mv - 1)))))"

definition fragment_length :: "alignment \<Rightarrow> alignment \<Rightarrow> error + nat" where
  "fragment_length al1 al2 =
     (let up = (if pos al1 < pos al2 then al1 else al2);
          dn = (if pos al1 < pos al2 then al2 else al1)
      in case rpos dn of
        Inl e \<Rightarrow> Inl e
      | Inr r \<Rightarrow>
          (case lpos up of
             Inl e \<Rightarrow> Inl e
           | Inr l \<Rightarrow> Inr (size_t (int r - int l + 1))))"

text \<open>
  The positions as the specification words them: the rightmost reference position of an
  alignment is its position plus the reference span of the transcript (the number of
  \<^verbatim>\<open>=\<close>, \<^verbatim>\<open>X\<close>, \<^verbatim>\<open>D\<close> and \<^verbatim>\<open>N\<close>) plus the soft-clipped bases on the right, minus
  one; the leftmost is the position minus the soft-clipped bases on the left.
\<close>

definition spec_ref_span :: "string \<Rightarrow> nat" where
  "spec_ref_span xs =
     length (filter (\<lambda>c. c = CHR ''='' \<or> c = CHR ''X'' \<or> c = CHR ''D'' \<or> c = CHR ''N'') xs)"

definition spec_right_clip :: "string \<Rightarrow> nat" where
  "spec_right_clip xs =
     length (takeWhile (\<lambda>c. c = CHR ''S'') (rev (filter (\<lambda>c. c \<noteq> CHR 0x00) xs)))"

definition spec_left_clip :: "string \<Rightarrow> nat" where
  "spec_left_clip xs = length (takeWhile (\<lambda>c. c = CHR ''S'') xs)"

definition spec_rightmost :: "alignment \<Rightarrow> int" where
  "spec_rightmost al =
     int (pos al) + int (spec_ref_span (edit_xscript al))
       + int (spec_right_clip (edit_xscript al)) - 1"

definition spec_leftmost :: "alignment \<Rightarrow> int" where
  "spec_leftmost al = int (pos al) - int (spec_left_clip (edit_xscript al))"

definition spec_fragment_length :: "alignment \<Rightarrow> alignment \<Rightarrow> int" where
  "spec_fragment_length al1 al2 =
     (let up = (if pos al1 < pos al2 then al1 else al2);
          dn = (if pos al1 < pos al2 then al2 else al1)
      in spec_rightmost dn - spec_leftmost up + 1)"

section \<open>Feature records\<close>

text \<open>
  A feature record is a row of \<^verbatim>\<open>double\<close>s. Every value the program writes is the
  conversion of an integer, a NaN, or what \<^verbatim>\<open>sscanf("%lf")\<close> reads from a token; a
  value is modelled by where it comes from.
\<close>

datatype fval =
    FNum int       \<comment> \<open>\<^verbatim>\<open>(double)n\<close>\<close>
  | FNaN           \<comment> \<open>\<^verbatim>\<open>quiet_NaN()\<close>\<close>
  | FDec string    \<comment> \<open>\<^verbatim>\<open>sscanf(tok, "%lf", ...)\<close>\<close>

text \<open>
  \<open>strtok_all d [] s\<close> lists the tokens that \<^verbatim>\<open>strtok(s, d)\<close> and the calls
  \<^verbatim>\<open>strtok(NULL, d)\<close> after it return, until \<^verbatim>\<open>NULL\<close>: the maximal runs of characters
  other than the delimiter.
\<close>

fun strtok_all :: "char \<Rightarrow> string \<Rightarrow> string \<Rightarrow> string list" where
  "strtok_all d cur [] = (if cur = [] then [] else [cur])"
| "strtok_all d cur (c # cs) =
     (if c = d then (if cur = [] then strtok_all d [] cs else cur # strtok_all d [] cs)
      else strtok_all d (cur @ [c]) cs)"

text \<open>
  The digit loop over one \<^verbatim>\<open>ZT:Z\<close> token: \<open>Some i\<close> is the integer read, \<open>None\<close>
  says that a \<^verbatim>\<open>.\<close> was met and the token is read by \<^verbatim>\<open>sscanf\<close>.

  The accumulator \<^verbatim>\<open>ztz_i\<close> is a 32-bit \<^verbatim>\<open>int\<close>. \<^verbatim>\<open>ztz_i *= 10.0\<close> multiplies in
  \<^verbatim>\<open>double\<close>, where the product is exact, and converts the product back to \<^verbatim>\<open>int\<close>:
  \<open>double_to_int\<close>. C leaves the conversion of a value outside the range of \<^verbatim>\<open>int\<close>
  undefined; the value taken here is the one the conversion instruction of x86-64
  gives, the most negative \<^verbatim>\<open>int\<close>. \<^verbatim>\<open>ztz_i += ((*buf) - '0')\<close> and the negation
  \<^verbatim>\<open>-ztz_i\<close> are \<^verbatim>\<open>int\<close> arithmetic and wrap as two's complement numbers.
\<close>

definition double_to_int :: "int \<Rightarrow> int" where
  "double_to_int d = (if - (2 ^ 31) \<le> d \<and> d < 2 ^ 31 then d else - (2 ^ 31))"

fun ztz_digits :: "string \<Rightarrow> int \<Rightarrow> error + int option" where
  "ztz_digits [] ztz_i = Inr (Some ztz_i)"
| "ztz_digits (c # cs) ztz_i =
     (if c \<noteq> CHR 0x0D \<and> c \<noteq> CHR 0x0A then
        (if \<not> (isdigit c \<or> c = CHR ''.'') then Inl AssertFail
         else if c \<noteq> CHR ''.''
           then ztz_digits cs (int32 (double_to_int (ztz_i * 10) + int (digit_val c)))
         else Inr None)
      else Inr (Some ztz_i))"

definition ztz_value :: "string \<Rightarrow> error + fval" where
  "ztz_value tok =
     (if deref tok = CHR ''N'' then
        (if \<not> deref (tl tok) = CHR ''A'' then Inl AssertFail else Inr FNaN)
      else let neg = (deref tok = CHR ''-''); buf = (if neg then tl tok else tok) in
        case ztz_digits buf 0 of
          Inl e \<Rightarrow> Inl e
        | Inr None \<Rightarrow> Inr (FDec tok)
        | Inr (Some ztz_i) \<Rightarrow> Inr (FNum (if neg then int32 (- ztz_i) else ztz_i)))"

fun ztz_values :: "string list \<Rightarrow> error + fval list" where
  "ztz_values [] = Inr []"
| "ztz_values (tok # toks) =
     (case ztz_value tok of
        Inl e \<Rightarrow> Inl e
      | Inr v \<Rightarrow> (case ztz_values toks of Inl e \<Rightarrow> Inl e | Inr vs \<Rightarrow> Inr (v # vs)))"

text \<open>
  \<^verbatim>\<open>print_unpaired\<close> and \<^verbatim>\<open>print_paired_helper\<close> from the point where the alignments
  are parsed (\<^verbatim>\<open>parse_from_rname_on\<close>, \<^verbatim>\<open>set_correctness\<close> and \<^verbatim>\<open>parse_extra\<close> are
  done), with the record file open: \<open>ztz\<close> is the \<^verbatim>\<open>ZT:Z\<close> string that
  \<^verbatim>\<open>parse_extra\<close> returned, and the result is the content of \<^verbatim>\<open>write_buf\<close> handed to
  \<^verbatim>\<open>fwrite\<close>.
\<close>

definition print_unpaired :: "alignment \<Rightarrow> nat \<Rightarrow> string \<Rightarrow> error + fval list" where
  "print_unpaired al ordlen ztz =
     (if \<not> is_aligned al then Inl AssertFail
      else if edit_xscript al = [] then Inl Throw
      else case strtok_all (CHR '','') [] ztz of
        [] \<Rightarrow> Inl AssertFail
      | tok # toks \<Rightarrow>
          (case ztz_values (tok # toks) of
             Inl e \<Rightarrow> Inl e
           | Inr ztz_buf \<Rightarrow>
               Inr ([FNum (int (line al)), FNum (int (len al)),
                     FNum (int (left_clip al + right_clip al)),
                     FNum (int (tot_aligned_qual al)), FNum (int (tot_clipped_qual al)),
                     FNum (int ordlen)]
                    @ ztz_buf
                    @ [FNum (mapq al), FNum (correct al)])))"

definition print_paired_helper ::
  "int \<Rightarrow> alignment \<Rightarrow> alignment \<Rightarrow> string \<Rightarrow> string \<Rightarrow> error + fval list" where
  "print_paired_helper max_allowed_fraglen al1 al2 ztz1 ztz2 =
     (if \<not> is_aligned al1 then Inl AssertFail
      else if \<not> is_aligned al2 then Inl AssertFail
      else if edit_xscript al1 = [] then Inl Throw
      else case fragment_length al1 al2 of
        Inl e \<Rightarrow> Inl e
      | Inr fl \<Rightarrow>
          (let fraglen = min (size_t max_allowed_fraglen) fl;
               len1_d = FNum (int (len al1));
               clip1_d = FNum (int (left_clip al1) + int (right_clip al1));
               alqual1_d = FNum (int (tot_aligned_qual al1));
               clipqual1_d = FNum (int (tot_clipped_qual al1))
           in case strtok_all (CHR '','') [] ztz1 of
             [] \<Rightarrow> Inl AssertFail
           | tok1 # toks1 \<Rightarrow>
               (case ztz_values (tok1 # toks1) of
                  Inl e \<Rightarrow> Inl e
                | Inr ztz1_buf \<Rightarrow>
                    (case strtok_all (CHR '','') [] ztz2 of
                       [] \<Rightarrow> Inl AssertFail
                     | tok2 # toks2 \<Rightarrow>
                         (case ztz_values (tok2 # toks2) of
                            Inl e \<Rightarrow> Inl e
                          | Inr ztz2_buf \<Rightarrow>
                              (let len2_d = FNum (int (len al2));
                                   clip2_d = FNum (int (left_clip al2 + right_clip al2));
                                   alqual2_d = FNum (int (tot_aligned_qual al2));
                                   clipqual2_d = FNum (int (tot_clipped_qual al2));
                                   fraglen_d = FNum (int fraglen)
                               in Inr ([FNum (int (line al1)), len1_d, clip1_d, alqual1_d,
                                        clipqual1_d]
                                       @ ztz1_buf
                                       @ [len2_d, clip2_d, alqual2_d, clipqual2_d, fraglen_d]
                                       @ ztz2_buf
                                       @ [FNum (mapq al1), FNum (correct al1)]
                                       @ [FNum (int (line al2)), len2_d, clip2_d, alqual2_d,
                                          clipqual2_d]
                                       @ ztz2_buf
                                       @ [len1_d, clip1_d, alqual1_d, clipqual1_d, fraglen_d]
                                       @ ztz1_buf
                                       @ [FNum (mapq al2), FNum (correct al2)])))))))"

text \<open>
  \<^verbatim>\<open>print_paired\<close> hands the alignment of the earlier line to the helper first; each
  alignment comes with its \<^verbatim>\<open>ZT:Z\<close> string.
\<close>

definition print_paired ::
  "int \<Rightarrow> alignment \<Rightarrow> alignment \<Rightarrow> string \<Rightarrow> string \<Rightarrow> error + fval list" where
  "print_paired max_allowed_fraglen al1 al2 ztz1 ztz2 =
     (if line al1 < line al2
      then print_paired_helper max_allowed_fraglen al1 al2 ztz1 ztz2
      else print_paired_helper max_allowed_fraglen al2 al1 ztz2 ztz1)"

section \<open>The correctness label: \<^verbatim>\<open>Alignment::set_correctness\<close>\<close>

text \<open>
  The header \<^verbatim>\<open>simplesim.h\<close> is not among the sources: the prefix \<^verbatim>\<open>sim_startswith\<close>
  and the separator \<^verbatim>\<open>sim_sep\<close> that it declares are parameters of every function that
  uses them, and so is the global \<^verbatim>\<open>wiggle\<close>.

  \<open>starts_with s p\<close> is \<^verbatim>\<open>strncmp(s, p, strlen(p)) == 0\<close>.
\<close>

definition starts_with :: "string \<Rightarrow> string \<Rightarrow> bool" where
  "starts_with s p \<longleftrightarrow> take (length p) s = p"

text \<open>
  Pointer steps, each followed by what the function does next. \<open>ptr_inc\<close> is
  \<^verbatim>\<open>qname_cur++\<close> and \<open>ptr_add\<close> is \<^verbatim>\<open>qname_cur += n\<close>; a pointer that leaves the string
  is read by the statement that follows, so the step itself is the error.
  \<open>expect c\<close> is \<^verbatim>\<open>if(*(qname_cur++) != c) return;\<close> at a point where the label is 0.
\<close>

definition ptr_inc :: "string \<Rightarrow> (string \<Rightarrow> error + int) \<Rightarrow> error + int" where
  "ptr_inc cur k = (case cur of [] \<Rightarrow> Inl PastEnd | c # cur' \<Rightarrow> k cur')"

definition ptr_add :: "string \<Rightarrow> nat \<Rightarrow> (string \<Rightarrow> error + int) \<Rightarrow> error + int" where
  "ptr_add cur n k = (if n \<le> length cur then k (drop n cur) else Inl PastEnd)"

definition expect :: "char \<Rightarrow> string \<Rightarrow> (string \<Rightarrow> error + int) \<Rightarrow> error + int" where
  "expect c cur k = (if deref cur \<noteq> c then Inr 0 else ptr_inc cur k)"

text \<open>
  The digit loops. A \<^verbatim>\<open>size_t\<close> accumulator wraps modulo \<open>2 ^ 64\<close>; an \<^verbatim>\<open>int\<close>
  accumulator is taken to wrap as a 32-bit two's complement number.
\<close>

fun parse_size_t :: "string \<Rightarrow> nat \<Rightarrow> nat \<times> string" where
  "parse_size_t [] acc = (acc, [])"
| "parse_size_t (c # cs) acc =
     (if isdigit c then parse_size_t cs (size_t (int acc * 10 + int (digit_val c)))
      else (acc, c # cs))"

fun parse_int :: "string \<Rightarrow> int \<Rightarrow> int \<times> string" where
  "parse_int [] acc = (acc, [])"
| "parse_int (c # cs) acc =
     (if isdigit c then parse_int cs (int32 (acc * 10 + int (digit_val c)))
      else (acc, c # cs))"

definition parse_score :: "string \<Rightarrow> int \<times> string" where
  "parse_score cur =
     (let negative = (deref cur = CHR ''-'');
          (score, cur') = parse_int (if negative then tl cur else cur) 0
      in (if negative then int32 (- score) else score, cur'))"

text \<open>
  \<open>pos_off refoff p\<close> is \<^verbatim>\<open>abs((int)(refoff - p))\<close> for two \<^verbatim>\<open>size_t\<close> values.
\<close>

definition pos_off :: "nat \<Rightarrow> nat \<Rightarrow> int" where
  "pos_off a b = c_abs (int32 (int (size_t (int a - int b))))"

text \<open>The last block of the first naming scheme, read for mate 2 only.\<close>

definition set_correctness_mate2 :: "char \<Rightarrow> int \<Rightarrow> alignment \<Rightarrow> string \<Rightarrow> error + int" where
  "set_correctness_mate2 sim_sep wiggle al cur0 =
     (if \<not> starts_with cur0 (rname al) then Inr 0
      else ptr_add cur0 (length (rname al)) (\<lambda>cur.
        expect sim_sep cur (\<lambda>cur.
          if deref cur \<noteq> (if is_fw al then CHR ''+'' else CHR ''-'') then Inr 0
          else ptr_inc cur (\<lambda>cur.
            expect sim_sep cur (\<lambda>cur.
              case parse_size_t cur 0 of (refoff, cur) \<Rightarrow>
                if wiggle \<le> pos_off refoff (size_t (int (pos al) - 1)) then Inr 0
                else expect sim_sep cur (\<lambda>cur.
                  case parse_score cur of (score2, cur) \<Rightarrow>
                    expect sim_sep cur (\<lambda>cur.
                      if \<not> (deref cur = CHR ''b'' \<or> deref cur = CHR ''c''
                             \<or> deref cur = CHR ''d'') then Inl AssertFail
                      else Inr 1)))))))"

definition set_correctness_qtip ::
  "string \<Rightarrow> char \<Rightarrow> int \<Rightarrow> alignment \<Rightarrow> error + int" where
  "set_correctness_qtip sim_startswith sim_sep wiggle al =
     (let cur0 = drop (length sim_startswith) (qname al) in
      if \<not> deref cur0 = sim_sep then Inl AssertFail
      else ptr_inc cur0 (\<lambda>cur.
        if mate_flag al \<noteq> CHR ''2'' \<and> \<not> starts_with cur (rname al) then Inr 0
        else ptr_add cur (length (rname al)) (\<lambda>cur.
          expect sim_sep cur (\<lambda>cur.
            if mate_flag al \<noteq> CHR ''2''
               \<and> deref cur \<noteq> (if is_fw al then CHR ''+'' else CHR ''-'') then Inr 0
            else ptr_inc cur (\<lambda>cur.
              expect sim_sep cur (\<lambda>cur.
                case parse_size_t cur 0 of (refoff, cur) \<Rightarrow>
                  if mate_flag al \<noteq> CHR ''2''
                     \<and> wiggle \<le> pos_off refoff (size_t (int (pos al) - 1)) then Inr 0
                  else expect sim_sep cur (\<lambda>cur.
                    case parse_score cur of (score1, cur) \<Rightarrow>
                      expect sim_sep cur (\<lambda>cur.
                        if deref cur = CHR ''u''
                           \<and> (deref (tl cur) = CHR 0x00 \<or> isspace (deref (tl cur)))
                        then Inr 1
                        else if \<not> mate_flag al \<noteq> CHR ''0'' then Inl AssertFail
                        else if mate_flag al \<noteq> CHR ''2'' then Inr 1
                        else set_correctness_mate2 sim_sep wiggle al cur))))))))"

text \<open>
  The second naming scheme. \<open>count_und_colon\<close> is the counting loop over the name,
  \<open>skip_colons\<close> is \<^verbatim>\<open>while(ncolon > 0) { if(*qname_cur++ == ':') ncolon--; }\<close> and
  \<open>skip_number\<close> is \<^verbatim>\<open>while(isdigit(*qname_cur++));\<close>.
\<close>

fun count_und_colon :: "string \<Rightarrow> nat \<Rightarrow> nat \<Rightarrow> nat \<times> nat" where
  "count_und_colon [] nund ncolon = (nund, ncolon)"
| "count_und_colon (c # cs) nund ncolon =
     (if c = CHR ''_'' then count_und_colon cs (nund + 1) ncolon
      else if c = CHR '':'' \<and> 3 \<le> nund then count_und_colon cs nund (ncolon + 1)
      else count_und_colon cs nund ncolon)"

fun skip_colons :: "nat \<Rightarrow> string \<Rightarrow> error + string" where
  "skip_colons ncolon [] = (if 0 < ncolon then Inl PastEnd else Inr [])"
| "skip_colons ncolon (c # cs) =
     (if 0 < ncolon then
        (if c = CHR '':'' then skip_colons (ncolon - 1) cs else skip_colons ncolon cs)
      else Inr (c # cs))"

fun skip_number :: "string \<Rightarrow> error + string" where
  "skip_number [] = Inl PastEnd"
| "skip_number (c # cs) = (if isdigit c then skip_number cs else Inr cs)"

definition wgsim_label ::
  "int \<Rightarrow> alignment \<Rightarrow> nat \<Rightarrow> nat \<Rightarrow> int \<Rightarrow> int \<Rightarrow> string \<Rightarrow> error + int" where
  \<comment> \<open>the end of the branch, from the assertion on the flip flag on\<close>
  "wgsim_label wiggle al frag_start frag_end len1 len2 cur =
     (if \<not> (deref cur = CHR ''0'' \<or> deref cur = CHR ''1'') then Inl AssertFail
      else let flip = (deref cur = CHR ''1'');
               mate1 = (mate_flag al \<noteq> CHR ''2'');
               len12 = (if mate1 then len1 else len2)
           in if (\<not> flip) = mate1
              then Inr (if pos_off (pos al) frag_start < wiggle then 1 else 0)
              else Inr (if pos_off (pos al) (size_t (int frag_end - len12 + 1)) < wiggle
                        then 1 else 0))"

definition set_correctness_wgsim :: "int \<Rightarrow> nat \<Rightarrow> alignment \<Rightarrow> error + int" where
  "set_correctness_wgsim wiggle ncolon al =
     (if \<not> starts_with (qname al) (rname al) then Inr 0
      else ptr_add (qname al) (length (rname al)) (\<lambda>cur.
        expect (CHR ''_'') cur (\<lambda>cur.
          case parse_size_t cur 0 of (frag_start, cur) \<Rightarrow>
            expect (CHR ''_'') cur (\<lambda>cur.
              case parse_size_t cur 0 of (frag_end, cur) \<Rightarrow>
                expect (CHR ''_'') cur (\<lambda>cur.
                  case skip_colons ncolon cur of
                    Inl e \<Rightarrow> Inl e
                  | Inr cur \<Rightarrow>
                      (case skip_number cur of
                         Inl e \<Rightarrow> Inl e
                       | Inr cur \<Rightarrow>
                           (case parse_int cur 0 of (len1, cur) \<Rightarrow>
                              expect (CHR ''_'') cur (\<lambda>cur.
                                case parse_int cur 0 of (len2, cur) \<Rightarrow>
                                  expect (CHR ''_'') cur
                                    (wgsim_label wiggle al frag_start frag_end len1 len2)))))))))"

definition set_correctness ::
  "string \<Rightarrow> char \<Rightarrow> int \<Rightarrow> alignment \<Rightarrow> error + alignment" where
  "set_correctness sim_startswith sim_sep wiggle al =
     (if \<not> correct al = - 1 then Inl AssertFail
      else if \<not> is_aligned al then Inl AssertFail
      else if starts_with (qname al) sim_startswith then
        (case set_correctness_qtip sim_startswith sim_sep wiggle al of
           Inl e \<Rightarrow> Inl e
         | Inr c \<Rightarrow> Inr (al \<lparr> correct := c \<rparr>))
      else case count_und_colon (qname al) 0 0 of
        (nund, ncolon) \<Rightarrow>
          if 8 \<le> nund \<and> ncolon = 4 then
            (case set_correctness_wgsim wiggle ncolon al of
               Inl e \<Rightarrow> Inl e
             | Inr c \<Rightarrow> Inr (al \<lparr> correct := c \<rparr>))
          else Inr al)"

text \<open>
  The two naming schemes as the specification words them: a name of the first scheme
  starts with the simulation prefix; a name of the second scheme has at least eight
  underscores and exactly four colons after its third underscore.
  \<open>after_underscores n s\<close> is what follows the \<open>n\<close>-th underscore of \<open>s\<close>.
\<close>

fun after_underscores :: "nat \<Rightarrow> string \<Rightarrow> string" where
  "after_underscores n [] = []"
| "after_underscores n (c # cs) =
     (if n = 0 then c # cs
      else if c = CHR ''_'' then after_underscores (n - 1) cs
      else after_underscores n cs)"

definition spec_qtip_name :: "string \<Rightarrow> string \<Rightarrow> bool" where
  "spec_qtip_name sim_startswith qn \<longleftrightarrow> take (length sim_startswith) qn = sim_startswith"


text \<open>
  Modelled from the spec: the names the simulator gives its reads (the simulator,
  \<^verbatim>\<open>simplesim.h\<close>, is not among the sources). A name of the first scheme is the prefix
  and then, each after a separator, the fields of mate 1 (reference name, strand as
  \<^verbatim>\<open>+\<close> or \<^verbatim>\<open>-\<close>, true reference offset in decimal, true score), for a pair the same
  fields of mate 2, and a type tag; the tag of an unpaired read is \<^verbatim>\<open>u\<close>. A name of the
  second scheme is, joined by underscores, the reference name, the start and the end of
  the fragment, the simulation parameters (which hold four colons; what follows the last
  colon is \<open>last_param\<close>), the two mate lengths, the flip flag (\<^verbatim>\<open>0\<close> or \<^verbatim>\<open>1\<close>) and
  a tail, as in \<^verbatim>\<open>11_25006153_25006410_0:0:0_0:0:0_100_100_1_1/1\<close>.
  \<open>dec_val\<close> is the value of a decimal numeral.
\<close>

definition dec_from :: "nat \<Rightarrow> string \<Rightarrow> nat" where
  "dec_from n ds = foldl (\<lambda>a c. a * 10 + digit_val c) n ds"

definition dec_val :: "string \<Rightarrow> nat" where
  "dec_val ds = dec_from 0 ds"

definition strand_char :: "bool \<Rightarrow> char" where
  "strand_char fw = (if fw then CHR ''+'' else CHR ''-'')"

definition qtip_block :: "char \<Rightarrow> string \<Rightarrow> bool \<Rightarrow> string \<Rightarrow> string \<Rightarrow> string" where
  "qtip_block sim_sep rn fw off sc =
     rn @ [sim_sep] @ [strand_char fw] @ [sim_sep] @ off @ [sim_sep] @ sc"

definition wgsim_name ::
  "string \<Rightarrow> string \<Rightarrow> string \<Rightarrow> string \<Rightarrow> string \<Rightarrow> string \<Rightarrow> string \<Rightarrow> char \<Rightarrow> string
     \<Rightarrow> string" where
  "wgsim_name rn frag_start frag_end params last_param len1 len2 flip tail =
     rn @ ''_'' @ frag_start @ ''_'' @ frag_end @ ''_'' @ params @ '':'' @ last_param
     @ ''_'' @ len1 @ ''_'' @ len2 @ ''_'' @ [flip] @ tail"


section \<open>The pass over the stream: \<^verbatim>\<open>sam_pass1\<close>\<close>

text \<open>
  \<^verbatim>\<open>infer_read_length\<close> reads the length of the sequence column off the raw rest of a
  line: the column after the seventh tab. Neither loop looks for the terminator.
\<close>

fun infer_read_length_count :: "string \<Rightarrow> nat \<Rightarrow> error + nat" where
  "infer_read_length_count [] n = Inl PastEnd"
| "infer_read_length_count (c # cs) n =
     (if c \<noteq> CHR 0x09 then infer_read_length_count cs (n + 1) else Inr n)"

fun infer_read_length_tabs :: "string \<Rightarrow> nat \<Rightarrow> error + nat" where
  "infer_read_length_tabs [] tabs = Inl PastEnd"
| "infer_read_length_tabs (c # cs) tabs =
     (if c = CHR 0x09 then
        (if tabs + 1 = 7 then infer_read_length_count cs 0
         else infer_read_length_tabs cs (tabs + 1))
      else infer_read_length_tabs cs tabs)"

definition infer_read_length :: "string \<Rightarrow> error + nat" where
  "infer_read_length rest = infer_read_length_tabs rest 0"

text \<open>
  \<^verbatim>\<open>atoi\<close>: white space, an optional sign, digits. The flag column of a record is a
  small number; overflow is not modelled.
\<close>

fun atoi_digits :: "string \<Rightarrow> int \<Rightarrow> int" where
  "atoi_digits [] acc = acc"
| "atoi_digits (c # cs) acc =
     (if isdigit c then atoi_digits cs (acc * 10 + int (digit_val c)) else acc)"

definition atoi :: "string \<Rightarrow> int" where
  "atoi s =
     (let t = dropWhile isspace s in
      if deref t = CHR ''-'' then - atoi_digits (tl t) 0
      else if deref t = CHR ''+'' then atoi_digits (tl t) 0
      else atoi_digits t 0)"

text \<open>
  The first two columns of a line, as the two \<^verbatim>\<open>strtok\<close> calls and their assertions
  leave them: the name (which must start the line), the flag string, and the rest of the
  line after the tab that ends the flag string.
\<close>

definition tokenize_line :: "string \<Rightarrow> error + string \<times> string \<times> string" where
  "tokenize_line raw =
     (let qn = takeWhile (\<lambda>c. c \<noteq> CHR 0x09) raw;
          after = dropWhile (\<lambda>c. c = CHR 0x09) (dropWhile (\<lambda>c. c \<noteq> CHR 0x09) raw);
          flag_str = takeWhile (\<lambda>c. c \<noteq> CHR 0x09) after
      in if qn = [] then Inl AssertFail
         else if flag_str = [] then Inl AssertFail
         else Inr (qn, flag_str, drop (length flag_str + 1) after))"

datatype lane = Unpaired | BadEnd | Concordant | Discordant

text \<open>
  A call of \<^verbatim>\<open>print_unpaired\<close> or \<^verbatim>\<open>print_paired\<close> by the pass, with the output files
  of a lane: the arguments of the call.
\<close>

datatype emission =
    PrintUnpaired lane alignment nat
  | PrintPaired lane alignment alignment

text \<open>
  The local variables of \<^verbatim>\<open>sam_pass1\<close> that live across lines, and the calls made so
  far. The two line buffers are held by the alignments that point into them. The
  bookkeeping of the metadata headers (\<^verbatim>\<open>u_head\<close>, \<^verbatim>\<open>u_nztz\<close> and the like) is left
  out.
\<close>

record pass1 =
  slot1 :: alignment        \<comment> \<open>\<^verbatim>\<open>al1\<close>\<close>
  slot2 :: alignment        \<comment> \<open>\<^verbatim>\<open>al2\<close>\<close>
  al_cur1 :: bool
  nline :: nat
  nhead :: nat
  nsec :: nat
  nsupp :: nat
  npair :: nat
  nunp :: nat
  nunp_al :: nat
  nunp_unal :: nat
  npair_badend :: nat
  npair_conc :: nat
  npair_disc :: nat
  npair_unal :: nat
  ntyp_mismatch :: nat
  printed :: "emission list"

definition pass1_init :: pass1 where
  "pass1_init = \<lparr> slot1 = clear, slot2 = clear, al_cur1 = True, nline = 0, nhead = 0,
     nsec = 0, nsupp = 0, npair = 0, nunp = 0, nunp_al = 0, nunp_unal = 0,
     npair_badend = 0, npair_conc = 0, npair_disc = 0, npair_unal = 0,
     ntyp_mismatch = 0, printed = [] \<rparr>"

text \<open>
  Mating up. \<open>Some True\<close>: the current record is mate 1 and the previous one mate 2;
  \<open>Some False\<close>: the other way round; \<open>None\<close>: no mates yet.
\<close>

definition mate_up :: "alignment \<Rightarrow> alignment \<Rightarrow> error + bool option" where
  "mate_up al_cur al_prev =
     (if mate_flag al_cur \<noteq> CHR ''0'' \<and> valid al_prev then
        (if mate_flag al_cur = CHR ''1'' then
           (if mate_flag al_prev \<noteq> CHR ''2'' then Inl Throw
            else Inr (Some True))
         else if \<not> mate_flag al_cur = CHR ''2'' then Inl AssertFail
         else if \<not> mate_flag al_prev = CHR ''1'' then Inl AssertFail
         else Inr (Some False))
      else Inr None)"

text \<open>The simulated-type tag: what follows the last separator of a simulated name.\<close>

fun typ_scan :: "char \<Rightarrow> string \<Rightarrow> string option \<Rightarrow> string option" where
  "typ_scan sim_sep [] t = t"
| "typ_scan sim_sep (c # cs) t = typ_scan sim_sep cs (if c = sim_sep then Some cs else t)"

definition set_typ :: "string \<Rightarrow> char \<Rightarrow> alignment \<Rightarrow> error + alignment" where
  "set_typ sim_startswith sim_sep al =
     (if starts_with (qname al) sim_startswith then
        (if \<not> typ' al = None then Inl AssertFail
         else case typ_scan sim_sep (qname al) None of
           None \<Rightarrow> Inl AssertFail
         | Some t \<Rightarrow> Inr (al \<lparr> typ' := Some t \<rparr>))
      else Inr al)"

text \<open>
  \<open>typ_is al c\<close> is \<^verbatim>\<open>al.typ == NULL || al.typ[0] == c\<close>, and \<open>typ_is_b al\<close> the test
  of the bad-end case.
\<close>

definition typ_is :: "alignment \<Rightarrow> char \<Rightarrow> bool" where
  "typ_is al c \<longleftrightarrow> (case typ' al of None \<Rightarrow> True | Some t \<Rightarrow> deref t = c)"

definition typ_is_b :: "alignment \<Rightarrow> bool" where
  "typ_is_b al \<longleftrightarrow>
     (case typ' al of
        None \<Rightarrow> True
      | Some t \<Rightarrow> deref t = CHR ''b'' \<and> deref (tl t) = mate_flag al)"

text \<open>
  The cases of the loop body once the current record is set up and mated:
  \<open>al_cur\<close> and \<open>al_prev\<close> are the two alignments, \<open>mates\<close> what \<open>mate_up\<close>
  found. The result is the counters and calls after the line, and whether the current
  record is left waiting for its mate.
\<close>

definition classify ::
  "pass1 \<Rightarrow> alignment \<Rightarrow> alignment \<Rightarrow> bool option \<Rightarrow> error + pass1 \<times> bool" where
  "classify s al_cur al_prev mates =
     (if mate_flag al_cur = CHR ''0'' then
        (let s = s \<lparr> nunp := nunp s + 1 \<rparr> in
         if \<not> is_aligned al_cur then Inr (s \<lparr> nunp_unal := nunp_unal s + 1 \<rparr>, False)
         else if typ_is al_cur (CHR ''u'') then
           Inr (s \<lparr> nunp_al := nunp_al s + 1,
                    printed := printed s @ [PrintUnpaired Unpaired al_cur 0] \<rparr>, False)
         else if typ' al_cur \<noteq> None then
           Inr (s \<lparr> ntyp_mismatch := ntyp_mismatch s + 1 \<rparr>, False)
         else Inr (s, False))
      else case mates of
        Some cur_is_mate1 \<Rightarrow>
          (let mate1 = (if cur_is_mate1 then al_cur else al_prev);
               mate2 = (if cur_is_mate1 then al_prev else al_cur)
           in if \<not> is_aligned mate1 \<and> \<not> is_aligned mate2 then
                Inr (s \<lparr> npair_unal := npair_unal s + 1 \<rparr>, False)
              else if is_aligned mate1 \<noteq> is_aligned mate2 then
                (let m1al = is_aligned mate1;
                     alm = (if m1al then mate1 else mate2)
                 in if typ_is_b alm then
                      (case infer_read_length
                              (if m1al then rest_of_line mate2 else rest_of_line mate1) of
                         Inl e \<Rightarrow> Inl e
                       | Inr ordlen \<Rightarrow>
                           Inr (s \<lparr> npair_badend := npair_badend s + 1,
                                    printed := printed s @ [PrintUnpaired BadEnd alm ordlen] \<rparr>,
                                False))
                    else if typ' alm \<noteq> None then
                      Inr (s \<lparr> ntyp_mismatch := ntyp_mismatch s + 1 \<rparr>, False)
                    else Inr (s, False))
              else if \<not> is_concordant mate1 = is_concordant mate2 then Inl AssertFail
              else if is_concordant mate1 then
                (if typ_is mate1 (CHR ''c'') then
                   Inr (s \<lparr> npair_conc := npair_conc s + 1,
                            printed := printed s @ [PrintPaired Concordant mate1 mate2] \<rparr>,
                        False)
                 else if typ' mate1 \<noteq> None then
                   Inr (s \<lparr> ntyp_mismatch := ntyp_mismatch s + 1 \<rparr>, False)
                 else Inr (s, False))
              else
                (if typ_is mate1 (CHR ''d'') then
                   Inr (s \<lparr> npair_disc := npair_disc s + 1,
                            printed := printed s @ [PrintPaired Discordant mate1 mate2] \<rparr>,
                        False)
                 else if typ' mate1 \<noteq> None then
                   Inr (s \<lparr> ntyp_mismatch := ntyp_mismatch s + 1 \<rparr>, False)
                 else Inr (s, False)))
      | None \<Rightarrow> Inr (s, True))"

text \<open>
  The loop body from the switch of the buffers on, for a line that is neither a header
  nor a secondary or supplementary alignment: \<open>qn\<close>, \<open>fl\<close> and \<open>rest\<close> are its name,
  its flags and the rest of the line, and \<open>s\<close> has the line counted already.
  \<open>al_cur_of\<close> and \<open>al_prev_of\<close> are the references \<^verbatim>\<open>al_cur\<close> and \<^verbatim>\<open>al_prev\<close> that the
  body takes from \<^verbatim>\<open>al_cur1\<close>.
\<close>

definition al_cur_of :: "pass1 \<Rightarrow> alignment" where
  "al_cur_of s = (if al_cur1 s then slot1 s else slot2 s)"

definition al_prev_of :: "pass1 \<Rightarrow> alignment" where
  "al_prev_of s = (if al_cur1 s then slot2 s else slot1 s)"

definition sam_pass1_record ::
  "string \<Rightarrow> char \<Rightarrow> pass1 \<Rightarrow> string \<Rightarrow> int \<Rightarrow> string \<Rightarrow> error + pass1" where
  "sam_pass1_record sim_startswith sim_sep s qn fl rest =
     (let c1 = al_cur1 s;
          al_prev = al_prev_of s
      in if \<not> \<not> valid (al_cur_of s) then Inl AssertFail
         else let al_cur = clear \<lparr> rest_of_line := rest, qname := qn, flag := fl,
                                   line := nline s \<rparr>;
                  s = s \<lparr> al_cur1 := \<not> c1 \<rparr>
              in case mate_up al_cur al_prev of
                Inl e \<Rightarrow> Inl e
              | Inr mates \<Rightarrow>
                  (let al_prev = (if mates \<noteq> None then al_prev \<lparr> valid := False \<rparr>
                                  else al_prev);
                       al_cur = (if mates \<noteq> None then al_cur \<lparr> valid := False \<rparr>
                                 else al_cur);
                       s = (if mates \<noteq> None then s \<lparr> npair := npair s + 1 \<rparr> else s)
                   in case set_typ sim_startswith sim_sep al_cur of
                     Inl e \<Rightarrow> Inl e
                   | Inr al_cur \<Rightarrow>
                       (case classify s al_cur al_prev mates of
                          Inl e \<Rightarrow> Inl e
                        | Inr (s, waiting) \<Rightarrow>
                            (let al_cur = (if waiting then al_cur \<lparr> valid := True \<rparr>
                                           else al_cur)
                             in Inr (if c1 then s \<lparr> slot1 := al_cur, slot2 := al_prev \<rparr>
                                     else s \<lparr> slot1 := al_prev, slot2 := al_cur \<rparr>)))))"

definition sam_pass1_line :: "string \<Rightarrow> char \<Rightarrow> pass1 \<Rightarrow> string \<Rightarrow> error + pass1" where
  "sam_pass1_line sim_startswith sim_sep s0 raw =
     (let s = s0 \<lparr> nline := nline s0 + 1 \<rparr> in
      if deref raw = CHR ''@'' then Inr (s \<lparr> nhead := nhead s + 1 \<rparr>)
      else case tokenize_line raw of
        Inl e \<Rightarrow> Inl e
      | Inr (qn, flag_str, rest) \<Rightarrow>
          (let fl = atoi flag_str in
           if fl AND 256 \<noteq> 0 then Inr (s \<lparr> nsec := nsec s + 1 \<rparr>)
           else if fl AND 2048 \<noteq> 0 then Inr (s \<lparr> nsupp := nsupp s + 1 \<rparr>)
           else sam_pass1_record sim_startswith sim_sep s qn fl rest))"

fun sam_pass1 :: "string \<Rightarrow> char \<Rightarrow> pass1 \<Rightarrow> string list \<Rightarrow> error + pass1" where
  "sam_pass1 sim_startswith sim_sep s [] = Inr s"
| "sam_pass1 sim_startswith sim_sep s (raw # raws) =
     (case sam_pass1_line sim_startswith sim_sep s raw of
        Inl e \<Rightarrow> Inl e
      | Inr s' \<Rightarrow> sam_pass1 sim_startswith sim_sep s' raws)"

subsection \<open>The outcomes of a record or pair, as the specification words them\<close>

















subsection \<open>The paired feature record, as the specification words it\<close>

text \<open>
  One record of the paired layout, centred on the mate \<open>own\<close>:
  \<^verbatim>\<open>[line_id, len, clip, alqual, clipqual, ztz..., other_len, other_clip, other_alqual,
  other_clipqual, fraglen, other ztz..., mapq, correct]\<close>.
\<close>

definition paired_record ::
  "alignment \<Rightarrow> alignment \<Rightarrow> fval list \<Rightarrow> fval list \<Rightarrow> nat \<Rightarrow> fval list" where
  "paired_record own other ztz_own ztz_other fraglen =
     [FNum (int (line own)), FNum (int (len own)),
      FNum (int (left_clip own + right_clip own)),
      FNum (int (tot_aligned_qual own)), FNum (int (tot_clipped_qual own))]
     @ ztz_own
     @ [FNum (int (len other)), FNum (int (left_clip other + right_clip other)),
        FNum (int (tot_aligned_qual other)), FNum (int (tot_clipped_qual other)),
        FNum (int fraglen)]
     @ ztz_other
     @ [FNum (mapq own), FNum (correct own)]"

text \<open>Two mates for the examples: mate 1 on line 2 at position 100, mate 2 on line 1 at
  position 200, both aligned concordantly with five matches.\<close>

definition ex_mate1 :: alignment where
  "ex_mate1 = clear \<lparr> flag := 67, pos := 100, mapq := 60, len := 5, tot_aligned_qual := 160,
     line := 2, edit_xscript := ''====='' @ [CHR 0x00], cigar_ops := ''='', cigar_run := [5] \<rparr>"

definition ex_mate2 :: alignment where
  "ex_mate2 = clear \<lparr> flag := 131, pos := 200, mapq := 50, len := 5, tot_aligned_qual := 150,
     line := 1, edit_xscript := ''====='' @ [CHR 0x00], cigar_ops := ''='', cigar_run := [5] \<rparr>"




section \<open>Properties\<close>

subsection \<open>Rules for evaluating the functions on given input\<close>

lemmas char_eval = isdigit_def isspace_def digit_val_def

lemmas set_correctness_eval = set_correctness_def starts_with_def set_correctness_qtip_def
  set_correctness_mate2_def set_correctness_wgsim_def wgsim_label_def expect_def ptr_inc_def
  ptr_add_def
  parse_score_def pos_off_def c_abs_def int32_def size_t_def mate_flag_def is_fw_def
  is_aligned_def char_eval clear_def Let_def

subsection \<open>Quality sums\<close>

lemma qual_loop_total:
  "\<forall>j<len al. 33 \<le> c_int (cstr_at (qual al) j)
     \<Longrightarrow> \<exists>tc' ta'. qual_loop al i tc ta = Inr (tc', ta')"
proof (induction al i tc ta rule: qual_loop.induct)
  case (1 al i tc ta)
  show ?case
  proof (cases "i < len al")
    case True
    with 1 show ?thesis by (subst qual_loop.simps) auto
  next
    case False
    then show ?thesis by (subst qual_loop.simps) simp
  qed
qed

lemma print_unpaired_writes:
  assumes "is_aligned al" and "edit_xscript al \<noteq> []"
    and "strtok_all (CHR '','') [] ztz \<noteq> []"
    and "ztz_values (strtok_all (CHR '','') [] ztz) = Inr zs"
  shows "print_unpaired al ordlen ztz
     = Inr ([FNum (int (line al)), FNum (int (len al)),
             FNum (int (left_clip al + right_clip al)),
             FNum (int (tot_aligned_qual al)), FNum (int (tot_clipped_qual al)),
             FNum (int ordlen)] @ zs @ [FNum (mapq al), FNum (correct al)])"
  using assms by (auto simp: print_unpaired_def split: list.splits)

text \<open>
  Claim C3, at a record with five bases of quality 40 (\<^verbatim>\<open>I\<close>), two of them clipped on
  the left and none on the right (CIGAR \<^verbatim>\<open>2S3M\<close>). The claim gives the clipped sum as
  that of the two clipped bases, 80, and the aligned sum as that of the other three,
  120. The loop of \<^verbatim>\<open>calc_qual_averages\<close> tests \<^verbatim>\<open>i >= len - 1 - right_clip\<close>, which
  holds for the last base as well: the function leaves 120 in \<^verbatim>\<open>tot_clipped_qual\<close> and
  80 in \<^verbatim>\<open>tot_aligned_qual\<close>.
\<close>

theorem calc_qual_averages_off_by_one:
  "(case calc_qual_averages (clear \<lparr> len := 5, qual := ''IIIII'', left_clip := 2 \<rparr>) of
      Inl e \<Rightarrow> False
    | Inr al' \<Rightarrow> tot_clipped_qual al' = 120 \<and> tot_aligned_qual al' = 80)
   \<and> spec_tot_clipped_qual (clear \<lparr> len := 5, qual := ''IIIII'', left_clip := 2 \<rparr>) = 80
   \<and> spec_tot_aligned_qual (clear \<lparr> len := 5, qual := ''IIIII'', left_clip := 2 \<rparr>) = 120"
  by (simp add: calc_qual_averages_def clear_def cstr_at_def c_int_def
      spec_tot_clipped_qual_def spec_tot_aligned_qual_def qual_sum_def)

text \<open>
  The feature record of an unpaired alignment holds \<^verbatim>\<open>tot_clipped_qual\<close> in its
  clipped-quality column (line 869); \<^verbatim>\<open>avg_clipped_qual\<close> is assigned at lines 112, 506
  and 508 and read nowhere. A record of five bases of quality 40 with one base clipped
  on the left gets the average 100 from \<^verbatim>\<open>calc_qual_averages\<close>, and its feature record
  (line 1, transcript \<^verbatim>\<open>S====\<close>, \<^verbatim>\<open>ZT:Z:5\<close>, mapping quality 60) holds 0 in the
  clip-length and in the clipped-quality column, and 100 nowhere.
\<close>

theorem feature_record_holds_no_average:
  "calc_qual_averages (clear \<lparr> flag := 0, mapq := 60, len := 5, qual := ''IIIII'',
        left_clip := 1, line := 1 \<rparr>)
     = Inr (clear \<lparr> flag := 0, mapq := 60, len := 5, qual := ''IIIII'', left_clip := 0,
              line := 1, tot_aligned_qual := 120, avg_aligned_qual := 30,
              avg_clipped_qual := 100 \<rparr>)
   \<and> print_unpaired
       (clear \<lparr> flag := 0, mapq := 60, len := 5, qual := ''IIIII'', left_clip := 0,
              line := 1, tot_aligned_qual := 120, avg_aligned_qual := 30,
              avg_clipped_qual := 100, edit_xscript := ''S===='' @ [CHR 0x00] \<rparr>) 0 ''5''
     = Inr [FNum 1, FNum 5, FNum 0, FNum 120, FNum 0, FNum 0, FNum 5, FNum 60, FNum (- 1)]"
  by (simp add: calc_qual_averages_def clear_def cstr_at_def c_int_def print_unpaired_def
      is_aligned_def ztz_value_def isdigit_def digit_val_def int32_def double_to_int_def)

text \<open>
  Claim C9: for a record that passes the assertions of \<^verbatim>\<open>calc_qual_averages\<close> (a read
  of positive length, fewer clipped bases than bases, every quality character at least
  33) and has at most one soft-clipped base in total, the function returns with the
  clipped-quality average at the sentinel 100, \<^verbatim>\<open>tot_clipped_qual\<close> at 0 and both clip
  lengths at 0. The feature record that \<^verbatim>\<open>print_unpaired\<close> then writes for the
  alignment (whatever the steps in between do to the other fields, with the alignment
  flagged as aligned, a transcript built and the \<^verbatim>\<open>ZT:Z\<close> tokens read as \<open>zs\<close>) holds
  0 in its clip-length column and 0 in its clipped-quality column: the column is the
  sum \<^verbatim>\<open>tot_clipped_qual\<close>, and the average is not written.
\<close>

theorem calc_qual_averages_sentinel:
  assumes "0 < len al" and "left_clip al + right_clip al \<le> 1"
    and "left_clip al + right_clip al < len al"
    and "\<forall>j<len al. 33 \<le> c_int (cstr_at (qual al) j)"
  shows "\<exists>al'. calc_qual_averages al = Inr al' \<and> avg_clipped_qual al' = 100
           \<and> tot_clipped_qual al' = 0 \<and> left_clip al' = 0 \<and> right_clip al' = 0
           \<and> (\<forall>al2 ordlen ztz zs.
                 left_clip al2 = left_clip al' \<and> right_clip al2 = right_clip al'
                 \<and> tot_clipped_qual al2 = tot_clipped_qual al'
                 \<and> is_aligned al2 \<and> edit_xscript al2 \<noteq> []
                 \<and> strtok_all (CHR '','') [] ztz \<noteq> []
                 \<and> ztz_values (strtok_all (CHR '','') [] ztz) = Inr zs
                 \<longrightarrow> print_unpaired al2 ordlen ztz
                     = Inr ([FNum (int (line al2)), FNum (int (len al2)), FNum 0,
                             FNum (int (tot_aligned_qual al2)), FNum 0, FNum (int ordlen)]
                            @ zs @ [FNum (mapq al2), FNum (correct al2)]))"
proof -
  from qual_loop_total [OF assms(4)]
  obtain tc ta where l: "qual_loop al 0 0 0 = Inr (tc, ta)"
    by blast
  define al' where "al' = al \<lparr> tot_clipped_qual := tc, tot_aligned_qual := ta,
      avg_aligned_qual := real ta / real (len al - (left_clip al + right_clip al)),
      avg_clipped_qual := 100, tot_clipped_qual := 0, left_clip := 0, right_clip := 0 \<rparr>"
  have r: "calc_qual_averages al = Inr al'"
    using assms(1-3) l by (simp add: calc_qual_averages_def Let_def al'_def)
  have f: "avg_clipped_qual al' = 100" "tot_clipped_qual al' = 0"
    "left_clip al' = 0" "right_clip al' = 0"
    by (simp_all add: al'_def)
  have "print_unpaired al2 ordlen ztz
          = Inr ([FNum (int (line al2)), FNum (int (len al2)), FNum 0,
                  FNum (int (tot_aligned_qual al2)), FNum 0, FNum (int ordlen)]
                 @ zs @ [FNum (mapq al2), FNum (correct al2)])"
    if "left_clip al2 = left_clip al' \<and> right_clip al2 = right_clip al'
        \<and> tot_clipped_qual al2 = tot_clipped_qual al'
        \<and> is_aligned al2 \<and> edit_xscript al2 \<noteq> []
        \<and> strtok_all (CHR '','') [] ztz \<noteq> []
        \<and> ztz_values (strtok_all (CHR '','') [] ztz) = Inr zs" for al2 ordlen ztz zs
    using print_unpaired_writes [of al2 ztz zs ordlen] that f by simp
  with r f show ?thesis by blast
qed

theorem calc_qual_averages_sentinel_witness:
  "calc_qual_averages (clear \<lparr> len := 4, qual := ''I5II'', right_clip := 1 \<rparr>)
     = Inr (clear \<lparr> len := 4, qual := ''I5II'', right_clip := 0, tot_aligned_qual := 60,
              avg_aligned_qual := 20, avg_clipped_qual := 100 \<rparr>)
   \<and> print_unpaired
       (clear \<lparr> len := 4, qual := ''I5II'', right_clip := 0, tot_aligned_qual := 60,
              avg_aligned_qual := 20, avg_clipped_qual := 100,
              edit_xscript := ''===S'' @ [CHR 0x00], mapq := 60, line := 7 \<rparr>) 0 ''5''
     = Inr [FNum 7, FNum 4, FNum 0, FNum 60, FNum 0, FNum 0, FNum 5, FNum 60, FNum (- 1)]"
proof -
  let ?al = "clear \<lparr> len := 4, qual := ''I5II'', right_clip := 1 \<rparr>"
  have h: "0 < len ?al" "left_clip ?al + right_clip ?al \<le> 1"
    "left_clip ?al + right_clip ?al < len ?al"
    "\<forall>j<len ?al. 33 \<le> c_int (cstr_at (qual ?al) j)"
    by (simp_all add: clear_def cstr_at_def c_int_def eval_nat_numeral All_less_Suc)
  have c: "calc_qual_averages ?al
     = Inr (clear \<lparr> len := 4, qual := ''I5II'', right_clip := 0, tot_aligned_qual := 60,
              avg_aligned_qual := 20, avg_clipped_qual := 100 \<rparr>)"
    by (simp add: calc_qual_averages_def clear_def cstr_at_def c_int_def)
  from calc_qual_averages_sentinel [OF h] c
  have "\<forall>al2 ordlen ztz zs.
                 left_clip al2 = 0 \<and> right_clip al2 = 0
                 \<and> tot_clipped_qual al2 = 0
                 \<and> is_aligned al2 \<and> edit_xscript al2 \<noteq> []
                 \<and> strtok_all (CHR '','') [] ztz \<noteq> []
                 \<and> ztz_values (strtok_all (CHR '','') [] ztz) = Inr zs
                 \<longrightarrow> print_unpaired al2 ordlen ztz
                     = Inr ([FNum (int (line al2)), FNum (int (len al2)), FNum 0,
                             FNum (int (tot_aligned_qual al2)), FNum 0, FNum (int ordlen)]
                            @ zs @ [FNum (mapq al2), FNum (correct al2)])"
    by (simp add: clear_def)
  from this [rule_format, of "clear \<lparr> len := 4, qual := ''I5II'', right_clip := 0,
      tot_aligned_qual := 60, avg_aligned_qual := 20, avg_clipped_qual := 100,
      edit_xscript := ''===S'' @ [CHR 0x00], mapq := 60, line := 7 \<rparr>" "''5''" "[FNum 5]" 0] c
  show ?thesis
    by (simp add: clear_def is_aligned_def ztz_value_def isdigit_def digit_val_def int32_def
        double_to_int_def)
qed

subsection \<open>Fragment length\<close>

text \<open>
  Claim C4, at a pair whose mates both align with five matches (CIGAR \<^verbatim>\<open>5=\<close>), the
  upstream mate at position 100 and the downstream mate at position 200. The downstream
  mate covers the reference positions 200 to 204, so the fragment runs from 100 to 204
  and has length 105. \<^verbatim>\<open>Alignment::rpos\<close> steps over the first operation after the
  leading soft clip without counting it (\<^verbatim>\<open>while(*xs++ == 'S');\<close>) and returns 203;
  \<^verbatim>\<open>fragment_length\<close> returns 104.
\<close>

theorem fragment_length_one_short:
  "fragment_length
     (clear \<lparr> pos := 100, cigar_ops := ''='', cigar_run := [5],
              edit_xscript := ''====='' @ [CHR 0x00] \<rparr>)
     (clear \<lparr> pos := 200, cigar_ops := ''='', cigar_run := [5],
              edit_xscript := ''====='' @ [CHR 0x00] \<rparr>)
     = Inr 104
   \<and> spec_fragment_length
     (clear \<lparr> pos := 100, cigar_ops := ''='', cigar_run := [5],
              edit_xscript := ''====='' @ [CHR 0x00] \<rparr>)
     (clear \<lparr> pos := 200, cigar_ops := ''='', cigar_run := [5],
              edit_xscript := ''====='' @ [CHR 0x00] \<rparr>)
     = 105"
  by (simp add: fragment_length_def rpos_def lpos_def clear_def size_t_def
      spec_fragment_length_def spec_rightmost_def spec_leftmost_def spec_ref_span_def
      spec_right_clip_def spec_left_clip_def)

subsection \<open>Edit transcripts\<close>

text \<open>
  Claim C1, at an alignment of one hard-clipped base and one matching base: extended
  CIGAR \<^verbatim>\<open>1H1=\<close>, or CIGAR \<^verbatim>\<open>1H1M\<close> with \<^verbatim>\<open>MD:Z:1\<close>. The reconciliation path skips
  the \<^verbatim>\<open>H\<close> run; the direct path copies every operation but \<^verbatim>\<open>M\<close> and \<^verbatim>\<open>P\<close> and so
  writes the \<^verbatim>\<open>H\<close> into the transcript.
\<close>

theorem direct_path_keeps_hard_clip:
  "map_sum id edit_xscript (cigar_to_edit_xscript
      (clear \<lparr> cigar_equal_x := True, cigar_ops := ''H='', cigar_run := [1, 1] \<rparr>))
     = Inr (''H='' @ [CHR 0x00])
   \<and> map_sum id edit_xscript (cigar_and_mdz_to_edit_xscript
      (clear \<lparr> cigar_ops := ''HM'', cigar_run := [1, 1],
               mdz_oro := [\<lparr> op = 0, run = 1, offset = - 1 \<rparr>] \<rparr>))
     = Inr (''='' @ [CHR 0x00])"
  by (simp add: cigar_to_edit_xscript_def cigar_and_mdz_to_edit_xscript_def clear_def
      cigar_and_mdz_step_def)

lemma direct_loop_fails:
  "i \<le> j \<Longrightarrow> j < length (cigar_run al) \<Longrightarrow> length (cigar_ops al) = length (cigar_run al)
    \<Longrightarrow> cigar_ops al ! j = CHR ''M'' \<or> cigar_ops al ! j = CHR ''P''
    \<Longrightarrow> cigar_to_edit_xscript_loop al i xs = Inl AssertFail"
proof (induction al i xs rule: cigar_to_edit_xscript_loop.induct)
  case (1 al i xs)
  show ?case
  proof (cases "cigar_ops al ! i = CHR ''M'' \<or> cigar_ops al ! i = CHR ''P''")
    case True
    with 1(2-4) show ?thesis by (subst cigar_to_edit_xscript_loop.simps) auto
  next
    case False
    with 1(2,5) have "i + 1 \<le> j" by (cases "i = j") auto
    with 1 False show ?thesis by (subst cigar_to_edit_xscript_loop.simps) (auto simp: Let_def)
  qed
qed

lemma reaches_loop:
  "reaches al i oro mdo xs \<Longrightarrow>
     cigar_and_mdz_loop al 0 (mdz_oro al) 0 [] = cigar_and_mdz_loop al i oro mdo xs"
proof (induction rule: reaches.induct)
  case (start al)
  show ?case by simp
next
  case (step al i oro mdo xs oro' mdo' xs')
  from step.hyps(2-4) have "cigar_and_mdz_loop al i oro mdo xs = cigar_and_mdz_loop al (i + 1) oro' mdo' xs'"
    by (subst cigar_and_mdz_loop.simps) simp
  with step.IH show ?case by simp
qed

text \<open>
  Claim C6: transcript construction fails on an illegal CIGAR shape. On the direct path,
  a CIGAR that holds an \<^verbatim>\<open>M\<close> or a \<^verbatim>\<open>P\<close> operation fails the assertion of
  \<^verbatim>\<open>cigar_to_edit_xscript\<close>. On the reconciliation path, when the loop comes to a
  \<^verbatim>\<open>D\<close> run and the MD:Z run under the cursor is a deletion run of another length,
  \<^verbatim>\<open>cigar_and_mdz_to_edit_xscript\<close> fails its assertion. A failed assertion aborts the
  process.
\<close>

theorem illegal_cigar_shape_fails:
  "(length (cigar_ops al) = length (cigar_run al)
      \<and> (CHR ''M'' \<in> set (cigar_ops al) \<or> CHR ''P'' \<in> set (cigar_ops al))
      \<longrightarrow> cigar_to_edit_xscript al = Inl AssertFail)
   \<and> (reaches al' i oro mdo xs \<and> i < length (cigar_run al') \<and> i < length (cigar_ops al')
        \<and> cigar_ops al' ! i = CHR ''D'' \<and> mdo < length oro \<and> op (oro ! mdo) = 2
        \<and> run (oro ! mdo) \<noteq> cigar_run al' ! i
      \<longrightarrow> cigar_and_mdz_to_edit_xscript al' = Inl AssertFail)"
proof (intro conjI impI)
  assume a: "length (cigar_ops al) = length (cigar_run al)
      \<and> (CHR ''M'' \<in> set (cigar_ops al) \<or> CHR ''P'' \<in> set (cigar_ops al))"
  then obtain j where "j < length (cigar_ops al)" "cigar_ops al ! j = CHR ''M'' \<or> cigar_ops al ! j = CHR ''P''"
    by (auto simp: in_set_conv_nth)
  with a have "cigar_to_edit_xscript_loop al 0 [] = Inl AssertFail"
    by (intro direct_loop_fails [of 0 j]) auto
  then show "cigar_to_edit_xscript al = Inl AssertFail"
    by (simp add: cigar_to_edit_xscript_def)
next
  assume b: "reaches al' i oro mdo xs \<and> i < length (cigar_run al') \<and> i < length (cigar_ops al')
        \<and> cigar_ops al' ! i = CHR ''D'' \<and> mdo < length oro \<and> op (oro ! mdo) = 2
        \<and> run (oro ! mdo) \<noteq> cigar_run al' ! i"
  then have "cigar_and_mdz_step (cigar_ops al' ! i) (cigar_run al' ! i) oro mdo xs = Inl AssertFail"
    by (auto simp: cigar_and_mdz_step_def Let_def)
  with b have "cigar_and_mdz_loop al' i oro mdo xs = Inl AssertFail"
    by (subst cigar_and_mdz_loop.simps) simp
  with b reaches_loop [of al' i oro mdo xs]
  have "cigar_and_mdz_loop al' 0 (mdz_oro al') 0 [] = Inl AssertFail" by simp
  then show "cigar_and_mdz_to_edit_xscript al' = Inl AssertFail"
    by (simp add: cigar_and_mdz_to_edit_xscript_def)
qed

theorem illegal_cigar_shape_fails_witness:
  "cigar_to_edit_xscript (clear \<lparr> cigar_equal_x := True, cigar_ops := ''=M'', cigar_run := [2, 3] \<rparr>)
     = Inl AssertFail
   \<and> cigar_and_mdz_to_edit_xscript
       (clear \<lparr> cigar_ops := ''MDM'', cigar_run := [2, 3, 2],
                mdz_oro := [\<lparr> op = 0, run = 2, offset = - 1 \<rparr>, \<lparr> op = 2, run = 2, offset = 0 \<rparr>,
                            \<lparr> op = 0, run = 2, offset = - 1 \<rparr>] \<rparr>)
     = Inl AssertFail"
proof -
  let ?A = "clear \<lparr> cigar_equal_x := True, cigar_ops := ''=M'', cigar_run := [2, 3] \<rparr>"
  let ?oro = "[\<lparr> op = 0, run = 2, offset = - 1 \<rparr>, \<lparr> op = 2, run = 2, offset = 0 \<rparr>,
                            \<lparr> op = 0, run = 2, offset = - 1 \<rparr>]"
  let ?B = "clear \<lparr> cigar_ops := ''MDM'', cigar_run := [2, 3, 2], mdz_oro := ?oro \<rparr>"
  have "reaches ?B (0 + 1) ?oro 1 ''==''"
    by (rule reaches.step [where oro = ?oro and mdo = 0 and xs = "[]"])
       (use reaches.start [of ?B] in \<open>simp_all add: clear_def cigar_and_mdz_step_def eval_nat_numeral\<close>)
  then have r: "reaches ?B 1 ?oro 1 ''==''" by simp
  show ?thesis
    using illegal_cigar_shape_fails [of ?A ?B 1 ?oro 1 "''==''"] r
    by (simp add: clear_def)
qed

subsection \<open>The pass over the stream\<close>
































lemma classify_frame:
  "classify s a b m = Inr (s', w) \<Longrightarrow>
     slot1 s' = slot1 s \<and> slot2 s' = slot2 s \<and> al_cur1 s' = al_cur1 s
     \<and> (w \<longrightarrow> m = None \<and> mate_flag a \<noteq> CHR ''0'')"
  by (auto simp: classify_def Let_def split: if_splits option.splits sum.splits)

lemma set_typ_frame:
  "set_typ p sep a = Inr a' \<Longrightarrow> valid a' = valid a \<and> flag a' = flag a \<and> mate_flag a' = mate_flag a"
  by (auto simp: set_typ_def mate_flag_def split: if_splits option.splits)

lemma mate_up_None:
  "mate_up a b = Inr None \<Longrightarrow> mate_flag a \<noteq> CHR ''0'' \<Longrightarrow> \<not> valid b"
  by (auto simp: mate_up_def split: if_splits)

lemma sam_pass1_record_one_pending:
  assumes "sam_pass1_record p sep s qn fl rest = Inr s'"
  shows "\<not> (valid (slot1 s') \<and> valid (slot2 s'))"
proof -
  let ?cur = "clear \<lparr> rest_of_line := rest, qname := qn, flag := fl, line := nline s \<rparr>"
  from assms obtain mates where m: "mate_up ?cur (al_prev_of s) = Inr mates"
    by (auto simp: sam_pass1_record_def Let_def split: if_splits sum.splits)
  let ?prev = "if mates \<noteq> None then (al_prev_of s) \<lparr> valid := False \<rparr> else al_prev_of s"
  let ?cur' = "if mates \<noteq> None then ?cur \<lparr> valid := False \<rparr> else ?cur"
  let ?s = "if mates \<noteq> None then s \<lparr> al_cur1 := \<not> al_cur1 s, npair := npair s + 1 \<rparr>
            else s \<lparr> al_cur1 := \<not> al_cur1 s \<rparr>"
  from assms m obtain a where t: "set_typ p sep ?cur' = Inr a"
    by (auto simp: sam_pass1_record_def Let_def split: if_splits sum.splits)
  from assms m t obtain s1 w where c: "classify ?s a ?prev mates = Inr (s1, w)"
    by (auto simp: sam_pass1_record_def Let_def split: if_splits sum.splits)
  from assms m t c have s': "s' = (if al_cur1 s
        then s1 \<lparr> slot1 := (if w then a \<lparr> valid := True \<rparr> else a), slot2 := ?prev \<rparr>
        else s1 \<lparr> slot1 := ?prev, slot2 := (if w then a \<lparr> valid := True \<rparr> else a) \<rparr>)"
    by (auto simp: sam_pass1_record_def Let_def split: if_splits sum.splits)
  from set_typ_frame [OF t] have va: "valid a = False" "mate_flag a = mate_flag ?cur'"
    by (auto simp: clear_def)
  have mf: "mate_flag ?cur' = mate_flag ?cur" by (simp add: mate_flag_def)
  show ?thesis
  proof (cases w)
    case True
    with classify_frame [OF c] have "mates = None" "mate_flag a \<noteq> CHR ''0''" by auto
    with va mf have "mate_flag ?cur \<noteq> CHR ''0''" by simp
    with m \<open>mates = None\<close> have "\<not> valid (al_prev_of s)" by (auto dest: mate_up_None)
    with s' \<open>mates = None\<close> show ?thesis by (auto split: if_splits)
  next
    case False
    with s' va show ?thesis by (auto split: if_splits)
  qed
qed

lemma sam_pass1_line_one_pending:
  "\<not> (valid (slot1 s) \<and> valid (slot2 s)) \<Longrightarrow> sam_pass1_line p sep s raw = Inr s'
     \<Longrightarrow> \<not> (valid (slot1 s') \<and> valid (slot2 s'))"
  by (auto simp: sam_pass1_line_def Let_def split: if_splits sum.splits
      dest: sam_pass1_record_one_pending)

lemma sam_pass1_one_pending:
  "\<not> (valid (slot1 s) \<and> valid (slot2 s)) \<Longrightarrow> sam_pass1 p sep s raws = Inr s'
     \<Longrightarrow> \<not> (valid (slot1 s') \<and> valid (slot2 s'))"
proof (induction raws arbitrary: s)
  case Nil
  then show ?case by simp
next
  case (Cons raw raws)
  from Cons.prems(2) obtain s1 where 1: "sam_pass1_line p sep s raw = Inr s1"
    and 2: "sam_pass1 p sep s1 raws = Inr s'"
    by (auto split: sum.splits)
  from sam_pass1_line_one_pending [OF Cons.prems(1) 1] Cons.IH 2 show ?case by blast
qed

lemma mate_flag_clear_upd:
  "mate_flag (clear \<lparr> rest_of_line := rest, qname := qn, flag := fl, line := n \<rparr>) = mate_flag (clear \<lparr> flag := fl \<rparr>)"
  by (simp add: mate_flag_def)

text \<open>
  Claim C7: when a paired-end record is waiting for its mate and the next line that is
  neither a header nor a secondary or supplementary alignment is a paired-end record of
  the same mate role, the pass fails: by \<^verbatim>\<open>throw 1\<close> after the message about
  consecutive records for two records of mate 1, by the assertion
  \<^verbatim>\<open>al_prev.mate_flag() == '1'\<close> for two records of mate 2 (and by the assertion
  \<^verbatim>\<open>!al_cur.valid\<close> if the slot to be filled still holds a waiting record). Both end
  the process. And in every state the pass reaches from its initial state, at most one of
  the two slots holds a waiting record.
\<close>

theorem same_mate_role_is_fatal:
  "(tokenize_line raw = Inr (qn, flag_str, rest) \<and> deref raw \<noteq> CHR ''@''
      \<and> atoi flag_str AND 256 = 0 \<and> atoi flag_str AND 2048 = 0
      \<and> valid (al_prev_of s)
      \<and> mate_flag (al_prev_of s) = mate_flag (clear \<lparr> flag := atoi flag_str \<rparr>)
      \<and> mate_flag (clear \<lparr> flag := atoi flag_str \<rparr>) \<noteq> CHR ''0''
    \<longrightarrow> sam_pass1_line sim_startswith sim_sep s raw
          = Inl (if valid (al_cur_of s) \<or> mate_flag (al_prev_of s) = CHR ''2''
                 then AssertFail else Throw))
   \<and> (sam_pass1 sim_startswith sim_sep pass1_init raws = Inr s'
    \<longrightarrow> \<not> (valid (slot1 s') \<and> valid (slot2 s')))"
proof (intro conjI impI)
  assume a: "tokenize_line raw = Inr (qn, flag_str, rest) \<and> deref raw \<noteq> CHR ''@''
      \<and> atoi flag_str AND 256 = 0 \<and> atoi flag_str AND 2048 = 0
      \<and> valid (al_prev_of s)
      \<and> mate_flag (al_prev_of s) = mate_flag (clear \<lparr> flag := atoi flag_str \<rparr>)
      \<and> mate_flag (clear \<lparr> flag := atoi flag_str \<rparr>) \<noteq> CHR ''0''"
  let ?s = "s \<lparr> nline := nline s + 1 \<rparr>"
  let ?cur = "clear \<lparr> rest_of_line := rest, qname := qn, flag := atoi flag_str,
                      line := nline ?s \<rparr>"
  have p: "al_prev_of ?s = al_prev_of s" "al_cur_of ?s = al_cur_of s"
    by (simp_all add: al_prev_of_def al_cur_of_def)
  have "mate_up ?cur (al_prev_of s)
          = Inl (if mate_flag (al_prev_of s) = CHR ''2'' then AssertFail else Throw)"
    using a unfolding mate_up_def mate_flag_clear_upd
    by (auto simp: mate_flag_def split: if_splits)
  then have "sam_pass1_record sim_startswith sim_sep ?s qn (atoi flag_str) rest
          = Inl (if valid (al_cur_of s) \<or> mate_flag (al_prev_of s) = CHR ''2''
                 then AssertFail else Throw)"
    unfolding sam_pass1_record_def Let_def p by auto
  with a show "sam_pass1_line sim_startswith sim_sep s raw
          = Inl (if valid (al_cur_of s) \<or> mate_flag (al_prev_of s) = CHR ''2''
                 then AssertFail else Throw)"
    by (simp add: sam_pass1_line_def Let_def)
next
  assume "sam_pass1 sim_startswith sim_sep pass1_init raws = Inr s'"
  then show "\<not> (valid (slot1 s') \<and> valid (slot2 s'))"
    by (rule sam_pass1_one_pending [rotated]) (simp add: pass1_init_def clear_def)
qed

theorem same_mate_role_is_fatal_witness:
  "sam_pass1_line ''qsim'' (CHR ''!'')
      (pass1_init \<lparr> slot2 := clear \<lparr> qname := ''r1'', flag := 65, valid := True \<rparr> \<rparr>)
      (''r2'' @ [CHR 0x09] @ ''65'' @ [CHR 0x09] @ ''chr1'') = Inl Throw
   \<and> sam_pass1_line ''qsim'' (CHR ''!'')
      (pass1_init \<lparr> slot2 := clear \<lparr> qname := ''r1'', flag := 129, valid := True \<rparr> \<rparr>)
      (''r2'' @ [CHR 0x09] @ ''129'' @ [CHR 0x09] @ ''chr1'') = Inl AssertFail
   \<and> \<not> (valid (slot1 (pass1_init \<lparr> slot1 := clear \<lparr> rest_of_line := ''chr1'', qname := ''r2'',
                flag := 65, line := 1, valid := True \<rparr>, al_cur1 := False, nline := 1 \<rparr>))
        \<and> valid (slot2 (pass1_init \<lparr> slot1 := clear \<lparr> rest_of_line := ''chr1'', qname := ''r2'',
                flag := 65, line := 1, valid := True \<rparr>, al_cur1 := False, nline := 1 \<rparr>)))"
proof -
  let ?raw = "''r2'' @ [CHR 0x09] @ ''65'' @ [CHR 0x09] @ ''chr1''"
  let ?raw2 = "''r2'' @ [CHR 0x09] @ ''129'' @ [CHR 0x09] @ ''chr1''"
  let ?S = "pass1_init \<lparr> slot2 := clear \<lparr> qname := ''r1'', flag := 65, valid := True \<rparr> \<rparr>"
  let ?S2 = "pass1_init \<lparr> slot2 := clear \<lparr> qname := ''r1'', flag := 129, valid := True \<rparr> \<rparr>"
  let ?S1 = "pass1_init \<lparr> slot1 := clear \<lparr> rest_of_line := ''chr1'', qname := ''r2'',
                flag := 65, line := 1, valid := True \<rparr>, al_cur1 := False, nline := 1 \<rparr>"
  have t: "tokenize_line ?raw = Inr (''r2'', ''65'', ''chr1'')"
    "tokenize_line ?raw2 = Inr (''r2'', ''129'', ''chr1'')"
    by (simp_all add: tokenize_line_def)
  have f: "atoi ''65'' = 65" "atoi ''129'' = 129"
    by (simp_all add: atoi_def char_eval)
  note t' = t [simplified]
  have run: "sam_pass1 ''qsim'' (CHR ''!'') pass1_init [?raw] = Inr ?S1"
    by (simp add: sam_pass1_line_def t' f sam_pass1_record_def al_cur_of_def al_prev_of_def
        pass1_init_def clear_def mate_up_def mate_flag_def set_typ_def starts_with_def
        classify_def Let_def)
  show ?thesis
    using same_mate_role_is_fatal [of ?raw "''r2''" "''65''" "''chr1''" ?S "''qsim''" "CHR ''!''" "[?raw]" ?S1]
      same_mate_role_is_fatal [of ?raw2 "''r2''" "''129''" "''chr1''" ?S2 "''qsim''" "CHR ''!''" "[]" pass1_init]
      t f run
    by (simp add: al_prev_of_def al_cur_of_def pass1_init_def clear_def mate_flag_def)
qed

subsection \<open>Feature records of a pair\<close>

lemma print_paired_helper_layout:
  assumes "print_paired_helper mx a b za zb = Inr buf"
  shows "\<exists>zsa zsb fl. ztz_values (strtok_all (CHR '','') [] za) = Inr zsa
           \<and> ztz_values (strtok_all (CHR '','') [] zb) = Inr zsb
           \<and> fragment_length a b = Inr fl
           \<and> buf = paired_record a b zsa zsb (min (size_t mx) fl)
                   @ paired_record b a zsb zsa (min (size_t mx) fl)"
  using assms
  by (auto simp: print_paired_helper_def paired_record_def Let_def
      split: if_splits sum.splits list.splits)

lemma ex_ztz: "ztz_values (strtok_all (CHR '','') [] ''5'') = Inr [FNum 5]"
  "ztz_values (strtok_all (CHR '','') [] ''7,NA'') = Inr [FNum 7, FNaN]"
  by (simp_all add: ztz_value_def isdigit_def digit_val_def int32_def double_to_int_def)

lemma ex_fragment_length: "fragment_length ex_mate2 ex_mate1 = Inr 104"
  "fragment_length ex_mate1 ex_mate2 = Inr 104"
  by (simp_all add: fragment_length_def ex_mate1_def ex_mate2_def rpos_def lpos_def clear_def size_t_def)

lemma ex_print_paired:
  "print_paired 50000 ex_mate1 ex_mate2 ''5'' ''7,NA''
     = Inr (paired_record ex_mate2 ex_mate1 [FNum 7, FNaN] [FNum 5] 104
            @ paired_record ex_mate1 ex_mate2 [FNum 5] [FNum 7, FNaN] 104)"
  unfolding print_paired_def print_paired_helper_def ex_ztz ex_fragment_length
  by (simp add: Let_def ex_ztz ex_mate1_def ex_mate2_def clear_def is_aligned_def paired_record_def size_t_def
     ztz_value_def isdigit_def digit_val_def int32_def double_to_int_def)

text \<open>
  Claim C5 as stated does not hold: the two records of a pair are not always written
  mate 1 first. \<^verbatim>\<open>print_paired\<close> hands the alignment of the earlier line to the helper
  first, so for a pair whose mate 2 comes first in the stream (here mate 2 on line 1 and
  mate 1 on line 2) the first record is centred on mate 2.
\<close>

theorem print_paired_earlier_line_first:
  "mate_flag ex_mate1 = CHR ''1'' \<and> mate_flag ex_mate2 = CHR ''2''
   \<and> print_paired 50000 ex_mate1 ex_mate2 ''5'' ''7,NA''
       = Inr (paired_record ex_mate2 ex_mate1 [FNum 7, FNaN] [FNum 5] 104
              @ paired_record ex_mate1 ex_mate2 [FNum 5] [FNum 7, FNaN] 104)
   \<and> print_paired 50000 ex_mate1 ex_mate2 ''5'' ''7,NA''
       \<noteq> Inr (paired_record ex_mate1 ex_mate2 [FNum 5] [FNum 7, FNaN] 104
              @ paired_record ex_mate2 ex_mate1 [FNum 7, FNaN] [FNum 5] 104)"
  unfolding ex_print_paired
  by (simp add: mate_flag_def ex_mate1_def ex_mate2_def clear_def paired_record_def)

text \<open>
  Claim C5, amended: for every pair that \<^verbatim>\<open>print_paired\<close> writes, exactly two feature
  records are written, the record centred on the mate of the earlier line and then the
  record centred on the mate of the later line (mate 1 then mate 2 when mate 1 comes
  first in the stream); each is laid out as \<^verbatim>\<open>[line_id, len, clip, alqual, clipqual,
  ztz fields, other_len, other_clip, other_alqual, other_clipqual, fraglen, other ztz
  fields, mapq, correct]\<close>, the other fields of each record are the own fields of the
  other record, and both records hold the same fragment length, the value of
  \<^verbatim>\<open>fragment_length\<close> capped at \<^verbatim>\<open>max_allowed_fraglen\<close>.
\<close>

theorem print_paired_layout:
  "print_paired max_allowed_fraglen al1 al2 ztz1 ztz2 = Inr buf \<Longrightarrow>
     \<exists>zs1 zs2 fl.
        ztz_values (strtok_all (CHR '','') [] ztz1) = Inr zs1
      \<and> ztz_values (strtok_all (CHR '','') [] ztz2) = Inr zs2
      \<and> (if line al1 < line al2 then fragment_length al1 al2 else fragment_length al2 al1)
          = Inr fl
      \<and> buf = (if line al1 < line al2
               then paired_record al1 al2 zs1 zs2 (min (size_t max_allowed_fraglen) fl)
                    @ paired_record al2 al1 zs2 zs1 (min (size_t max_allowed_fraglen) fl)
               else paired_record al2 al1 zs2 zs1 (min (size_t max_allowed_fraglen) fl)
                    @ paired_record al1 al2 zs1 zs2 (min (size_t max_allowed_fraglen) fl))"
proof (cases "line al1 < line al2")
  case True
  assume "print_paired max_allowed_fraglen al1 al2 ztz1 ztz2 = Inr buf"
  with True have "print_paired_helper max_allowed_fraglen al1 al2 ztz1 ztz2 = Inr buf"
    by (simp add: print_paired_def)
  from print_paired_helper_layout [OF this] True show ?thesis by auto
next
  case False
  assume "print_paired max_allowed_fraglen al1 al2 ztz1 ztz2 = Inr buf"
  with False have "print_paired_helper max_allowed_fraglen al2 al1 ztz2 ztz1 = Inr buf"
    by (simp add: print_paired_def)
  from print_paired_helper_layout [OF this] False show ?thesis by auto
qed

theorem print_paired_layout_witness:
  "\<exists>zs1 zs2 fl.
        ztz_values (strtok_all (CHR '','') [] ''5'') = Inr zs1
      \<and> ztz_values (strtok_all (CHR '','') [] ''7,NA'') = Inr zs2
      \<and> fragment_length ex_mate2 ex_mate1 = Inr fl
      \<and> paired_record ex_mate2 ex_mate1 [FNum 7, FNaN] [FNum 5] 104
            @ paired_record ex_mate1 ex_mate2 [FNum 5] [FNum 7, FNaN] 104
        = paired_record ex_mate2 ex_mate1 zs2 zs1 (min (size_t 50000) fl)
            @ paired_record ex_mate1 ex_mate2 zs1 zs2 (min (size_t 50000) fl)"
  using print_paired_layout [OF ex_print_paired]
  by (simp add: ex_mate1_def ex_mate2_def clear_def)

subsection \<open>The correctness label\<close>














lemma after_underscores_0 [simp]: "after_underscores 0 cs = cs"
  by (cases cs) simp_all



lemma ex_set_correctness_qtip:
  "set_correctness ''qsim'' (CHR ''!'') 30
     (clear \<lparr> qname := ''qsim!chr1!+!99!-12!u'', rname := ''chr1'', pos := 129 \<rparr>)
   = Inr (clear \<lparr> qname := ''qsim!chr1!+!99!-12!u'', rname := ''chr1'', pos := 129, correct := 1 \<rparr>)"
  by (simp add: set_correctness_eval)

lemma ex_set_correctness_wgsim:
  "set_correctness ''qsim'' (CHR ''!'') 30
     (clear \<lparr> qname := ''11_25006153_25006410_0:0:0_0:0:0_100_100_1_1/1'', rname := ''11'',
              pos := 25006183, flag := 131 \<rparr>)
   = Inr (clear \<lparr> qname := ''11_25006153_25006410_0:0:0_0:0:0_100_100_1_1/1'', rname := ''11'',
              pos := 25006183, flag := 131, correct := 0 \<rparr>)"
  by (simp add: set_correctness_eval)


subsection \<open>The label and the wiggle tolerance\<close>

text \<open>
  The pointer walk of \<^verbatim>\<open>set_correctness\<close> is followed on names built as the two naming
  schemes build them. Numbers are read into \<^verbatim>\<open>size_t\<close> and \<^verbatim>\<open>int\<close> variables and the
  difference of positions is cast to \<^verbatim>\<open>int\<close> before \<^verbatim>\<open>abs\<close>; the lemmas below show
  that for positions below \<open>2 ^ 31\<close> (the range of the SAM format) the casts do not
  change the difference.
\<close>

lemma size_t_nat: "n < 2 ^ 64 \<Longrightarrow> size_t (int n) = n"
  by (simp add: size_t_def)

lemma dec_from_mono: "n \<le> dec_from n ds"
proof (induction ds arbitrary: n)
  case Nil
  show ?case by (simp add: dec_from_def)
next
  case (Cons c ds)
  have "n \<le> n * 10 + digit_val c" by simp
  also have "\<dots> \<le> dec_from (n * 10 + digit_val c) ds" by (rule Cons.IH)
  finally show ?case by (simp add: dec_from_def)
qed

lemma parse_size_t_stop: "\<not> isdigit (deref r) \<Longrightarrow> parse_size_t r n = (n, r)"
  by (cases r) simp_all

lemma parse_size_t_digits:
  "list_all isdigit ds \<Longrightarrow> \<not> isdigit (deref r) \<Longrightarrow> dec_from n ds < 2 ^ 64
     \<Longrightarrow> parse_size_t (ds @ r) n = (dec_from n ds, r)"
proof (induction ds arbitrary: n)
  case Nil
  then show ?case by (simp add: parse_size_t_stop dec_from_def)
next
  case (Cons c ds)
  from Cons.prems(3) have b: "dec_from (n * 10 + digit_val c) ds < 2 ^ 64"
    by (simp add: dec_from_def)
  with dec_from_mono [of "n * 10 + digit_val c" ds] have "n * 10 + digit_val c < 2 ^ 64"
    by simp
  then have "size_t (int n * 10 + int (digit_val c)) = n * 10 + digit_val c"
    using size_t_nat [of "n * 10 + digit_val c"] by simp
  with Cons b show ?case by (simp add: dec_from_def)
qed

lemma parse_size_t_suffix:
  "\<exists>pre. xs = pre @ snd (parse_size_t xs n) \<and> list_all isdigit pre"
proof (induction xs arbitrary: n)
  case Nil
  show ?case by simp
next
  case (Cons c xs)
  show ?case
  proof (cases "isdigit c")
    case True
    from Cons [of "size_t (int n * 10 + int (digit_val c))"]
    obtain pre where "xs = pre @ snd (parse_size_t xs (size_t (int n * 10 + int (digit_val c))))"
      "list_all isdigit pre" by blast
    with True show ?thesis by (intro exI [of _ "c # pre"]) simp
  next
    case False
    then show ?thesis by (intro exI [of _ "[]"]) simp
  qed
qed

lemma parse_int_suffix:
  "\<exists>pre. xs = pre @ snd (parse_int xs n) \<and> list_all isdigit pre"
proof (induction xs arbitrary: n)
  case Nil
  show ?case by simp
next
  case (Cons c xs)
  show ?case
  proof (cases "isdigit c")
    case True
    from Cons [of "int32 (n * 10 + int (digit_val c))"]
    obtain pre where "xs = pre @ snd (parse_int xs (int32 (n * 10 + int (digit_val c))))"
      "list_all isdigit pre" by blast
    with True show ?thesis by (intro exI [of _ "c # pre"]) simp
  next
    case False
    then show ?thesis by (intro exI [of _ "[]"]) simp
  qed
qed

lemma parse_score_suffix:
  "\<exists>pre. xs = pre @ snd (parse_score xs) \<and> list_all (\<lambda>c. isdigit c \<or> c = CHR ''-'') pre"
proof (cases "deref xs = CHR ''-''")
  case True
  then obtain t where xs: "xs = CHR ''-'' # t" by (cases xs) auto
  from parse_int_suffix [of t 0] obtain pre where "t = pre @ snd (parse_int t 0)" "list_all isdigit pre"
    by blast
  with xs show ?thesis
    by (intro exI [of _ "CHR ''-'' # pre"])
       (auto simp: parse_score_def Let_def split: prod.splits intro: list.pred_mono_strong)
next
  case False
  from parse_int_suffix [of xs 0] obtain pre where "xs = pre @ snd (parse_int xs 0)" "list_all isdigit pre"
    by blast
  with False show ?thesis
    by (intro exI [of _ pre])
       (auto simp: parse_score_def Let_def split: prod.splits intro: list.pred_mono_strong)
qed

lemma sep_split_unique:
  "c \<notin> set a \<Longrightarrow> c \<notin> set b \<Longrightarrow> a @ c # r = b @ c # r' \<Longrightarrow> a = b \<and> r = r'"
proof (induction a arbitrary: b)
  case Nil
  then show ?case by (cases b) auto
next
  case (Cons x a)
  then show ?case by (cases b) auto
qed

lemma int32_id: "- (2 ^ 31) \<le> i \<Longrightarrow> i < 2 ^ 31 \<Longrightarrow> int32 i = i"
  by (simp add: int32_def)

lemma int32_mod: "int32 (i mod 2 ^ 64) = int32 i"
proof -
  have d: "(2 :: int) ^ 32 dvd 2 ^ 64" by (simp add: le_imp_power_dvd)
  have "(i mod 2 ^ 64 + 2 ^ 31) mod 2 ^ 32 = (i mod 2 ^ 64 mod 2 ^ 32 + 2 ^ 31) mod (2 ^ 32 :: int)"
    by (simp add: mod_add_left_eq)
  also have "i mod 2 ^ 64 mod 2 ^ 32 = i mod (2 ^ 32 :: int)"
    using d by (rule mod_mod_cancel)
  also have "(i mod 2 ^ 32 + 2 ^ 31) mod 2 ^ 32 = (i + 2 ^ 31) mod (2 ^ 32 :: int)"
    by (simp add: mod_add_left_eq)
  finally show ?thesis by (simp add: int32_def)
qed

lemma int32_mod_num: "int32 (i mod 18446744073709551616) = int32 i"
  using int32_mod [of i] by simp

lemma int_size_t: "int (size_t i) = i mod 2 ^ 64"
  by (simp add: size_t_def)

lemma pos_off_size_t: "pos_off a (size_t y) = c_abs (int32 (int a - y))"
proof -
  have "(int a - y mod 2 ^ 64) mod 2 ^ 64 = (int a - y) mod (2 ^ 64 :: int)"
    by (simp add: mod_diff_right_eq)
  then show ?thesis by (simp add: pos_off_def int_size_t int32_mod_num)
qed

lemma pos_off_nat: "pos_off a b = c_abs (int32 (int a - int b))"
  by (simp add: pos_off_def int_size_t int32_mod_num)

lemma c_abs_int32_small: "\<bar>d\<bar> < 2 ^ 31 \<Longrightarrow> c_abs (int32 d) = \<bar>d\<bar>"
  by (simp add: c_abs_def int32_id)

lemma expect_Inr1: "expect c cur k = Inr 1 \<Longrightarrow> \<exists>cur'. cur = c # cur' \<and> k cur' = Inr 1"
  by (cases cur) (auto simp: expect_def ptr_inc_def split: if_splits)

lemma ptr_inc_Inr: "ptr_inc cur k = Inr v \<Longrightarrow> \<exists>x cur'. cur = x # cur' \<and> k cur' = Inr v"
  by (cases cur) (auto simp: ptr_inc_def)

lemma ptr_add_Inr: "ptr_add cur n k = Inr v \<Longrightarrow> n \<le> length cur \<and> k (drop n cur) = Inr v"
  by (auto simp: ptr_add_def split: if_splits)

lemma walk_mate2:
  assumes "set_correctness_mate2 sim_sep wiggle al cur = Inr 1"
  shows "take (length (rname al)) cur = rname al \<and> (\<exists>rest off r2 r3.
           drop (length (rname al)) cur = sim_sep # strand_char (is_fw al) # sim_sep # rest
         \<and> parse_size_t rest 0 = (off, sim_sep # r2)
         \<and> pos_off off (size_t (int (pos al) - 1)) < wiggle
         \<and> snd (parse_score r2) = sim_sep # r3)"
  using assms
  by (auto simp: set_correctness_mate2_def starts_with_def strand_char_def
      split: if_splits prod.splits dest!: expect_Inr1 ptr_inc_Inr ptr_add_Inr)

lemma walk_qtip:
  assumes "set_correctness_qtip sim_startswith sim_sep wiggle al = Inr 1"
  shows "\<exists>R x rest off r2 cur8.
       drop (length sim_startswith) (qname al) = sim_sep # R
     \<and> length (rname al) \<le> length R
     \<and> drop (length (rname al)) R = sim_sep # x # sim_sep # rest
     \<and> parse_size_t rest 0 = (off, sim_sep # r2)
     \<and> snd (parse_score r2) = sim_sep # cur8
     \<and> (mate_flag al \<noteq> CHR ''2'' \<longrightarrow>
           take (length (rname al)) R = rname al \<and> x = strand_char (is_fw al)
           \<and> pos_off off (size_t (int (pos al) - 1)) < wiggle)
     \<and> (mate_flag al = CHR ''2'' \<longrightarrow>
           (deref cur8 = CHR ''u'' \<and> (deref (tl cur8) = CHR 0x00 \<or> isspace (deref (tl cur8))))
           \<or> set_correctness_mate2 sim_sep wiggle al cur8 = Inr 1)"
  using assms
  by (auto simp: set_correctness_qtip_def Let_def starts_with_def strand_char_def
      split: if_splits prod.splits dest!: expect_Inr1 ptr_inc_Inr ptr_add_Inr)

lemma strand_char_inj: "strand_char a = strand_char b \<Longrightarrow> a = b"
  by (auto simp: strand_char_def split: if_splits)

lemma pos_off_refoff:
  assumes "off < 2 ^ 31" "0 < p" "p < 2 ^ 31"
  shows "pos_off off (size_t (int p - 1)) = \<bar>int off - (int p - 1)\<bar>"
proof -
  from assms have "\<bar>int off - (int p - 1)\<bar> < 2 ^ 31" by auto
  then show ?thesis by (simp add: pos_off_size_t c_abs_int32_small)
qed

lemma first_scheme_mate1:
  assumes name: "qname al = sim_startswith @ [sim_sep] @ qtip_block sim_sep rn fw off sc
                    @ [sim_sep] @ tail"
    and m: "mate_flag al \<noteq> CHR ''2''"
    and sep: "sim_sep \<notin> set rn" "sim_sep \<notin> set (rname al)" "\<not> isdigit sim_sep"
    and off: "list_all isdigit off" "dec_val off < 2 ^ 31"
    and p: "0 < pos al" "pos al < 2 ^ 31"
    and r: "set_correctness sim_startswith sim_sep wiggle al = Inr al'" "correct al' = 1"
  shows "rn = rname al \<and> fw = is_fw al \<and> \<bar>int (dec_val off) - (int (pos al) - 1)\<bar> < wiggle"
proof -
  from name have sw: "starts_with (qname al) sim_startswith"
    by (simp add: starts_with_def)
  with r have "set_correctness_qtip sim_startswith sim_sep wiggle al = Inr 1"
    by (auto simp: set_correctness_def split: if_splits sum.splits)
  from walk_qtip [OF this] m obtain R x rest offv r2 where
    R: "drop (length sim_startswith) (qname al) = sim_sep # R"
    and d: "drop (length (rname al)) R = sim_sep # x # sim_sep # rest"
    and ps: "parse_size_t rest 0 = (offv, sim_sep # r2)"
    and t: "take (length (rname al)) R = rname al"
    and x: "x = strand_char (is_fw al)"
    and w: "pos_off offv (size_t (int (pos al) - 1)) < wiggle"
    by blast
  from name R have R': "R = rn @ sim_sep # strand_char fw # sim_sep # off @ sim_sep # sc @ sim_sep # tail"
    by (simp add: qtip_block_def)
  have "R = take (length (rname al)) R @ drop (length (rname al)) R" by simp
  with t d have "R = rname al @ sim_sep # x # sim_sep # rest" by simp
  with R' sep_split_unique [OF sep(1,2)]
  have rn: "rn = rname al" and "strand_char fw # sim_sep # off @ sim_sep # sc @ sim_sep # tail
      = x # sim_sep # rest" by blast+
  then have fw: "strand_char fw = x" and rest: "rest = off @ sim_sep # sc @ sim_sep # tail"
    by simp_all
  from off have "dec_from 0 off < 2 ^ 64" by (simp add: dec_val_def)
  with parse_size_t_digits [OF off(1), of "sim_sep # sc @ sim_sep # tail" 0] sep(3)
  have "parse_size_t rest 0 = (dec_val off, sim_sep # sc @ sim_sep # tail)"
    by (simp add: rest dec_val_def)
  with ps have "offv = dec_val off" by simp
  with w pos_off_refoff [OF off(2) p] have "\<bar>int (dec_val off) - (int (pos al) - 1)\<bar> < wiggle"
    by simp
  with rn fw x strand_char_inj show ?thesis by blast
qed

lemma count_list_0: "count_list xs c = 0 \<longleftrightarrow> c \<notin> set xs"
  by (induction xs) auto

lemma first_scheme_mate2:
  assumes name: "qname al = sim_startswith @ [sim_sep] @ qtip_block sim_sep rn1 fw1 off1 sc1
                    @ [sim_sep] @ qtip_block sim_sep rn2 fw2 off2 sc2 @ [sim_sep] @ tag"
    and m: "mate_flag al = CHR ''2''"
    and sep: "sim_sep \<notin> set (rn1 @ off1 @ sc1 @ rn2 @ off2 @ sc2 @ tag @ ''+-'')"
      "sim_sep \<notin> set (rname al)" "\<not> isdigit sim_sep"
    and ws: "list_all (\<lambda>c. \<not> isspace c \<and> c \<noteq> CHR 0x00) (qname al)"
    and tag: "tag \<noteq> []" "last tag \<noteq> CHR ''u''"
    and off: "list_all isdigit off2" "dec_val off2 < 2 ^ 31"
    and p: "0 < pos al" "pos al < 2 ^ 31"
    and r: "set_correctness sim_startswith sim_sep wiggle al = Inr al'" "correct al' = 1"
  shows "rn2 = rname al \<and> fw2 = is_fw al \<and> \<bar>int (dec_val off2) - (int (pos al) - 1)\<bar> < wiggle"
proof -
  let ?L = "length (rname al)"
  from name have sw: "starts_with (qname al) sim_startswith"
    by (simp add: starts_with_def)
  with r have "set_correctness_qtip sim_startswith sim_sep wiggle al = Inr 1"
    by (auto simp: set_correctness_def split: if_splits sum.splits)
  from walk_qtip [OF this] m obtain R x rest offv r2 cur8 where
    R: "drop (length sim_startswith) (qname al) = sim_sep # R"
    and d: "drop ?L R = sim_sep # x # sim_sep # rest"
    and ps: "parse_size_t rest 0 = (offv, sim_sep # r2)"
    and sc: "snd (parse_score r2) = sim_sep # cur8"
    and u: "(deref cur8 = CHR ''u'' \<and> (deref (tl cur8) = CHR 0x00 \<or> isspace (deref (tl cur8))))
           \<or> set_correctness_mate2 sim_sep wiggle al cur8 = Inr 1"
    by blast
  from name R have Rb: "R = rn1 @ sim_sep # strand_char fw1 # sim_sep # off1 @ sim_sep # sc1
      @ sim_sep # rn2 @ sim_sep # strand_char fw2 # sim_sep # off2 @ sim_sep # sc2 @ sim_sep # tag"
    by (simp add: qtip_block_def)
  from parse_size_t_suffix [of rest 0] ps obtain pre1 where pre1: "rest = pre1 @ sim_sep # r2"
    by auto
  from parse_score_suffix [of r2] sc obtain pre2 where pre2: "r2 = pre2 @ sim_sep # cur8"
    by auto
  define A0 where "A0 = take ?L R"
  have "R = A0 @ drop ?L R" by (simp add: A0_def)
  with d pre1 pre2 have R1: "R = A0 @ sim_sep # x # sim_sep # pre1 @ sim_sep # pre2
      @ sim_sep # cur8" by simp
  have nu: "\<not> (deref cur8 = CHR ''u'' \<and> (deref (tl cur8) = CHR 0x00 \<or> isspace (deref (tl cur8))))"
  proof
    assume a: "deref cur8 = CHR ''u'' \<and> (deref (tl cur8) = CHR 0x00 \<or> isspace (deref (tl cur8)))"
    then obtain t where t: "cur8 = CHR ''u'' # t" by (cases cur8) auto
    have "set cur8 \<subseteq> set (qname al)"
    proof -
      have "set cur8 \<subseteq> set R" by (subst R1) auto
      also have "set R \<subseteq> set (sim_sep # R)" by auto
      also have "\<dots> \<subseteq> set (qname al)" unfolding R [symmetric] by (rule set_drop_subset)
      finally show ?thesis .
    qed
    with ws have c8: "list_all (\<lambda>c. \<not> isspace c \<and> c \<noteq> CHR 0x00) cur8"
      by (auto simp: list_all_iff)
    have "t = []"
    proof (cases t)
      case Nil
      then show ?thesis .
    next
      case (Cons y ys)
      with a t c8 show ?thesis by auto
    qed
    with t have "last R = CHR ''u''" by (subst R1) simp
    moreover from tag(1) have "last R = last tag" by (subst Rb) simp
    ultimately show False using tag(2) by simp
  qed
  with u have "set_correctness_mate2 sim_sep wiggle al cur8 = Inr 1" by blast
  from walk_mate2 [OF this] obtain rest2 off2v r2' r3 where
    t8: "take ?L cur8 = rname al"
    and d8: "drop ?L cur8 = sim_sep # strand_char (is_fw al) # sim_sep # rest2"
    and ps2: "parse_size_t rest2 0 = (off2v, sim_sep # r2')"
    and w: "pos_off off2v (size_t (int (pos al) - 1)) < wiggle"
    and sc2: "snd (parse_score r2') = sim_sep # r3"
    by blast
  from parse_size_t_suffix [of rest2 0] ps2 obtain pre3 where pre3: "rest2 = pre3 @ sim_sep # r2'"
    by auto
  from parse_score_suffix [of r2'] sc2 obtain pre4 where pre4: "r2' = pre4 @ sim_sep # r3"
    by auto
  have "cur8 = take ?L cur8 @ drop ?L cur8" by simp
  with t8 d8 pre3 pre4 have c8: "cur8 = rname al @ sim_sep # strand_char (is_fw al) # sim_sep
      # pre3 @ sim_sep # pre4 @ sim_sep # r3" by simp
  from R1 c8 have Rw: "R = A0 @ sim_sep # x # sim_sep # pre1 @ sim_sep # pre2
      @ sim_sep # rname al @ sim_sep # strand_char (is_fw al) # sim_sep
      # pre3 @ sim_sep # pre4 @ sim_sep # r3" by simp
  from sep(1) have nf: "count_list rn1 sim_sep = 0" "count_list off1 sim_sep = 0"
    "count_list sc1 sim_sep = 0" "count_list rn2 sim_sep = 0" "count_list off2 sim_sep = 0"
    "count_list sc2 sim_sep = 0" "count_list tag sim_sep = 0"
    and ns: "strand_char fw1 \<noteq> sim_sep" "strand_char fw2 \<noteq> sim_sep"
    "strand_char (is_fw al) \<noteq> sim_sep"
    by (auto simp: count_list_0 strand_char_def)
  have cb: "count_list R sim_sep = 8"
    by (subst Rb) (simp add: nf ns)
  have cw: "count_list R sim_sep = 8 + count_list A0 sim_sep
      + (if x = sim_sep then 1 else 0) + count_list pre1 sim_sep + count_list pre2 sim_sep
      + count_list (rname al) sim_sep + count_list pre3 sim_sep + count_list pre4 sim_sep
      + count_list r3 sim_sep"
    by (subst Rw) (simp add: ns)
  from cb cw have z: "sim_sep \<notin> set A0" "sim_sep \<notin> set pre1" "sim_sep \<notin> set pre2"
    "sim_sep \<notin> set pre3"
    by (simp_all add: count_list_0 [symmetric] split: if_splits)
  from sep(1) have f: "sim_sep \<notin> set rn1" "sim_sep \<notin> set off1" "sim_sep \<notin> set sc1"
    "sim_sep \<notin> set rn2" "sim_sep \<notin> set off2" by auto
  from Rb Rw sep_split_unique [OF f(1) z(1)]
  have e1: "strand_char fw1 # sim_sep # off1 @ sim_sep # sc1
      @ sim_sep # rn2 @ sim_sep # strand_char fw2 # sim_sep # off2 @ sim_sep # sc2 @ sim_sep # tag
      = x # sim_sep # pre1 @ sim_sep # pre2
      @ sim_sep # rname al @ sim_sep # strand_char (is_fw al) # sim_sep
      # pre3 @ sim_sep # pre4 @ sim_sep # r3" by blast
  then have "off1 @ sim_sep # sc1
      @ sim_sep # rn2 @ sim_sep # strand_char fw2 # sim_sep # off2 @ sim_sep # sc2 @ sim_sep # tag
      = pre1 @ sim_sep # pre2
      @ sim_sep # rname al @ sim_sep # strand_char (is_fw al) # sim_sep
      # pre3 @ sim_sep # pre4 @ sim_sep # r3" by simp
  with sep_split_unique [OF f(2) z(2)]
  have "sc1 @ sim_sep # rn2 @ sim_sep # strand_char fw2 # sim_sep # off2 @ sim_sep # sc2 @ sim_sep # tag
      = pre2 @ sim_sep # rname al @ sim_sep # strand_char (is_fw al) # sim_sep
      # pre3 @ sim_sep # pre4 @ sim_sep # r3" by blast
  with sep_split_unique [OF f(3) z(3)]
  have "rn2 @ sim_sep # strand_char fw2 # sim_sep # off2 @ sim_sep # sc2 @ sim_sep # tag
      = rname al @ sim_sep # strand_char (is_fw al) # sim_sep
      # pre3 @ sim_sep # pre4 @ sim_sep # r3" by blast
  with sep_split_unique [OF f(4) sep(2)]
  have rn: "rn2 = rname al" and "strand_char fw2 # sim_sep # off2 @ sim_sep # sc2 @ sim_sep # tag
      = strand_char (is_fw al) # sim_sep # pre3 @ sim_sep # pre4 @ sim_sep # r3" by blast+
  then have fw: "strand_char fw2 = strand_char (is_fw al)"
    and "off2 @ sim_sep # sc2 @ sim_sep # tag = pre3 @ sim_sep # pre4 @ sim_sep # r3"
    by simp_all
  with sep_split_unique [OF f(5) z(4)] have o: "off2 = pre3" by blast
  from off have "dec_from 0 off2 < 2 ^ 64" by (simp add: dec_val_def)
  with parse_size_t_digits [OF off(1), of "sim_sep # r2'" 0] sep(3)
  have "parse_size_t rest2 0 = (dec_val off2, sim_sep # r2')"
    by (simp add: pre3 o [symmetric] dec_val_def)
  with ps2 have "off2v = dec_val off2" by simp
  with w pos_off_refoff [OF off(2) p] have "\<bar>int (dec_val off2) - (int (pos al) - 1)\<bar> < wiggle"
    by simp
  with rn fw strand_char_inj show ?thesis by blast
qed

lemma walk_wgsim:
  assumes "set_correctness_wgsim wiggle ncolon al = Inr 1"
  shows "take (length (rname al)) (qname al) = rname al \<and>
    (\<exists>r1 fs r2 fe r3 r4 r5 l1 r6 l2 r7.
       drop (length (rname al)) (qname al) = CHR ''_'' # r1
     \<and> parse_size_t r1 0 = (fs, CHR ''_'' # r2)
     \<and> parse_size_t r2 0 = (fe, CHR ''_'' # r3)
     \<and> skip_colons ncolon r3 = Inr r4
     \<and> skip_number r4 = Inr r5
     \<and> parse_int r5 0 = (l1, CHR ''_'' # r6)
     \<and> parse_int r6 0 = (l2, CHR ''_'' # r7)
     \<and> wgsim_label wiggle al fs fe l1 l2 r7 = Inr 1)"
  using assms
  by (auto simp: set_correctness_wgsim_def starts_with_def
      split: if_splits prod.splits sum.splits dest!: expect_Inr1 ptr_inc_Inr ptr_add_Inr)

lemma skip_colons_prefix:
  "count_list pre (CHR '':'') = n \<Longrightarrow> skip_colons (Suc n) (pre @ CHR '':'' # r) = Inr r"
proof (induction pre arbitrary: n)
  case Nil
  then show ?case by (cases r) simp_all
next
  case (Cons c pre)
  then show ?case by (cases "c = CHR '':''") auto
qed

lemma skip_number_digits:
  "list_all isdigit ds \<Longrightarrow> \<not> isdigit c \<Longrightarrow> skip_number (ds @ c # r) = Inr r"
  by (induction ds) simp_all

lemma parse_int_stop: "\<not> isdigit (deref r) \<Longrightarrow> parse_int r i = (i, r)"
  by (cases r) simp_all

lemma parse_int_digits:
  "list_all isdigit ds \<Longrightarrow> \<not> isdigit (deref r) \<Longrightarrow> dec_from n ds < 2 ^ 31
     \<Longrightarrow> parse_int (ds @ r) (int n) = (int (dec_from n ds), r)"
proof (induction ds arbitrary: n)
  case Nil
  then show ?case by (simp add: parse_int_stop dec_from_def)
next
  case (Cons c ds)
  from Cons.prems(3) have b: "dec_from (n * 10 + digit_val c) ds < 2 ^ 31"
    by (simp add: dec_from_def)
  with dec_from_mono [of "n * 10 + digit_val c" ds] have "n * 10 + digit_val c < 2 ^ 31"
    by simp
  then have "int32 (int n * 10 + int (digit_val c)) = int (n * 10 + digit_val c)"
    by (simp add: int32_id)
  with Cons.IH [of "n * 10 + digit_val c"] Cons.prems b show ?case
    by (simp add: dec_from_def)
qed

lemma underscore_not_digit: "\<not> isdigit (CHR ''_'')"
  by (simp add: isdigit_def)

lemma second_scheme:
  assumes name: "qname al = wgsim_name rn frag_start frag_end params last_param len1 len2 flip tail"
    and np: "\<not> spec_qtip_name sim_startswith (qname al)"
    and und: "CHR ''_'' \<notin> set rn" "CHR ''_'' \<notin> set (rname al)"
    and col: "count_list params (CHR '':'') = 3"
    and dig: "list_all isdigit (frag_start @ frag_end @ last_param @ len1 @ len2)"
    and bnd: "dec_val frag_start < 2 ^ 31" "dec_val frag_end < 2 ^ 31"
      "dec_val len1 \<le> dec_val frag_end" "dec_val len2 \<le> dec_val frag_end"
    and p: "0 < pos al" "pos al < 2 ^ 31"
    and r: "set_correctness sim_startswith sim_sep wiggle al = Inr al'" "correct al' = 1"
  shows "rn = rname al
     \<and> \<bar>int (pos al)
          - (if (flip \<noteq> CHR ''1'') = (mate_flag al \<noteq> CHR ''2'') then int (dec_val frag_start)
             else int (dec_val frag_end)
                  - int (dec_val (if mate_flag al \<noteq> CHR ''2'' then len1 else len2)) + 1)\<bar>
        < wiggle"
proof -
  let ?U = "CHR ''_''"
  from np have "\<not> starts_with (qname al) sim_startswith"
    by (simp add: starts_with_def spec_qtip_name_def)
  with r obtain nund where "count_und_colon (qname al) 0 0 = (nund, 4)"
    and "set_correctness_wgsim wiggle 4 al = Inr 1"
    by (auto simp: set_correctness_def split: if_splits sum.splits prod.splits)
  from walk_wgsim [OF this(2)] obtain r1 fs r2 fe r3 r4 r5 l1 r6 l2 r7 where
    t: "take (length (rname al)) (qname al) = rname al"
    and d: "drop (length (rname al)) (qname al) = ?U # r1"
    and p1: "parse_size_t r1 0 = (fs, ?U # r2)"
    and p2: "parse_size_t r2 0 = (fe, ?U # r3)"
    and s1: "skip_colons 4 r3 = Inr r4"
    and s2: "skip_number r4 = Inr r5"
    and p3: "parse_int r5 0 = (l1, ?U # r6)"
    and p4: "parse_int r6 0 = (l2, ?U # r7)"
    and w0: "wgsim_label wiggle al fs fe l1 l2 r7 = Inr 1"
    by blast
  from w0 have w: "if (deref r7 \<noteq> CHR ''1'') = (mate_flag al \<noteq> CHR ''2'')
         then pos_off (pos al) fs < wiggle
         else pos_off (pos al)
                (size_t (int fe - (if mate_flag al \<noteq> CHR ''2'' then l1 else l2) + 1))
              < wiggle"
    by (auto simp: wgsim_label_def Let_def split: if_splits)
  from dig have dg: "list_all isdigit frag_start" "list_all isdigit frag_end"
    "list_all isdigit last_param" "list_all isdigit len1" "list_all isdigit len2"
    by simp_all
  from bnd have b64: "dec_from 0 frag_start < 2 ^ 64" "dec_from 0 frag_end < 2 ^ 64"
    and b31: "dec_from 0 len1 < 2 ^ 31" "dec_from 0 len2 < 2 ^ 31"
    by (simp_all add: dec_val_def)
  have "qname al = take (length (rname al)) (qname al) @ drop (length (rname al)) (qname al)"
    by simp
  with t d have q: "qname al = rname al @ ?U # r1" by simp
  from name have qb: "qname al = rn @ ?U # frag_start @ ?U # frag_end @ ?U # params @ CHR '':''
      # last_param @ ?U # len1 @ ?U # len2 @ ?U # flip # tail"
    by (simp add: wgsim_name_def)
  from q qb sep_split_unique [OF und(1,2)]
  have rn: "rn = rname al" and r1: "r1 = frag_start @ ?U # frag_end @ ?U # params @ CHR '':''
      # last_param @ ?U # len1 @ ?U # len2 @ ?U # flip # tail" by auto
  from parse_size_t_digits [OF dg(1) _ b64(1), of "?U # frag_end @ ?U # params @ CHR '':''
      # last_param @ ?U # len1 @ ?U # len2 @ ?U # flip # tail"] p1
  have fs: "fs = dec_val frag_start" and r2: "r2 = frag_end @ ?U # params @ CHR '':''
      # last_param @ ?U # len1 @ ?U # len2 @ ?U # flip # tail"
    by (simp_all add: r1 underscore_not_digit dec_val_def)
  from parse_size_t_digits [OF dg(2) _ b64(2), of "?U # params @ CHR '':''
      # last_param @ ?U # len1 @ ?U # len2 @ ?U # flip # tail"] p2
  have fe: "fe = dec_val frag_end" and r3: "r3 = params @ CHR '':''
      # last_param @ ?U # len1 @ ?U # len2 @ ?U # flip # tail"
    by (simp_all add: r2 underscore_not_digit dec_val_def)
  from skip_colons_prefix [OF col, of "last_param @ ?U # len1 @ ?U # len2 @ ?U # flip # tail"] s1
  have r4: "r4 = last_param @ ?U # len1 @ ?U # len2 @ ?U # flip # tail"
    by (simp add: r3 eval_nat_numeral)
  from skip_number_digits [OF dg(3) underscore_not_digit, of "len1 @ ?U # len2 @ ?U # flip # tail"] s2
  have r5: "r5 = len1 @ ?U # len2 @ ?U # flip # tail"
    by (simp add: r4)
  from parse_int_digits [OF dg(4) _ b31(1), of "?U # len2 @ ?U # flip # tail"] p3
  have l1: "l1 = int (dec_val len1)" and r6: "r6 = len2 @ ?U # flip # tail"
    by (simp_all add: r5 underscore_not_digit dec_val_def)
  from parse_int_digits [OF dg(5) _ b31(2), of "?U # flip # tail"] p4
  have l2: "l2 = int (dec_val len2)" and r7: "r7 = flip # tail"
    by (simp_all add: r6 underscore_not_digit dec_val_def)
  let ?len = "dec_val (if mate_flag al \<noteq> CHR ''2'' then len1 else len2)"
  have le: "?len \<le> dec_val frag_end" using bnd(3,4) by simp
  show ?thesis
  proof (cases "(flip \<noteq> CHR ''1'') = (mate_flag al \<noteq> CHR ''2'')")
    case True
    with w r7 fs have "pos_off (pos al) (dec_val frag_start) < wiggle" by simp
    moreover from bnd(1) p have "\<bar>int (pos al) - int (dec_val frag_start)\<bar> < 2 ^ 31" by auto
    ultimately show ?thesis using True rn by (simp add: pos_off_nat c_abs_int32_small)
  next
    case False
    with w r7 fe l1 l2 have "pos_off (pos al) (size_t (int (dec_val frag_end) - int ?len + 1)) < wiggle"
      by (auto split: if_splits)
    moreover from bnd(2) le p
    have "\<bar>int (pos al) - (int (dec_val frag_end) - int ?len + 1)\<bar> < 2 ^ 31" by auto
    ultimately show ?thesis using False rn by (simp add: pos_off_size_t c_abs_int32_small)
  qed
qed

lemma label_depends_on:
  assumes "qname al1 = qname al2" "rname al1 = rname al2" "flag al1 = flag al2"
    "pos al1 = pos al2" "correct al1 = correct al2"
  shows "map_sum id correct (set_correctness sim_startswith sim_sep wiggle al1)
       = map_sum id correct (set_correctness sim_startswith sim_sep wiggle al2)"
proof -
  from assms have f: "mate_flag al1 = mate_flag al2" "is_fw al1 = is_fw al2"
    "is_aligned al1 = is_aligned al2"
    by (simp_all add: mate_flag_def is_fw_def is_aligned_def)
  have m: "set_correctness_mate2 sim_sep wiggle al1 cur = set_correctness_mate2 sim_sep wiggle al2 cur"
    for cur
    unfolding set_correctness_mate2_def assms(2,4) f by (rule refl)
  have q: "set_correctness_qtip sim_startswith sim_sep wiggle al1
         = set_correctness_qtip sim_startswith sim_sep wiggle al2"
    unfolding set_correctness_qtip_def assms(1,2,4) f m by (rule refl)
  have l: "wgsim_label wiggle al1 fs fe l1 l2 cur = wgsim_label wiggle al2 fs fe l1 l2 cur"
    for fs fe l1 l2 cur
    unfolding wgsim_label_def assms(4) f by (rule refl)
  then have l': "wgsim_label wiggle al1 fs fe l1 l2 = wgsim_label wiggle al2 fs fe l1 l2"
    for fs fe l1 l2
    by (rule ext)
  have w: "set_correctness_wgsim wiggle n al1 = set_correctness_wgsim wiggle n al2" for n
    unfolding set_correctness_wgsim_def assms(1,2) l' by (rule refl)
  show ?thesis
    using assms(1,5) f(3) q w
    by (auto simp: set_correctness_def split: sum.splits prod.splits)
qed

lemma ex_label_unpaired_near:
  "set_correctness ''qsim'' (CHR ''!'') 30
     (clear \<lparr> qname := ''qsim!chr1!+!99!-12!u'', rname := ''chr1'', pos := 129 \<rparr>)
   = Inr (clear \<lparr> qname := ''qsim!chr1!+!99!-12!u'', rname := ''chr1'', pos := 129,
                  correct := 1 \<rparr>)"
  by (simp add: set_correctness_eval)

lemma ex_label_unpaired_far:
  "set_correctness ''qsim'' (CHR ''!'') 30
     (clear \<lparr> qname := ''qsim!chr1!+!99!-12!u'', rname := ''chr1'', pos := 130 \<rparr>)
   = Inr (clear \<lparr> qname := ''qsim!chr1!+!99!-12!u'', rname := ''chr1'', pos := 130,
                  correct := 0 \<rparr>)"
  by (simp add: set_correctness_eval)

lemma ex_label_mate2:
  "set_correctness ''qsim'' (CHR ''!'') 30
     (clear \<lparr> qname := ''qsim!chr1!+!99!-12!chr1!-!300!-5!c'', rname := ''chr1'', pos := 301,
              flag := 147 \<rparr>)
   = Inr (clear \<lparr> qname := ''qsim!chr1!+!99!-12!chr1!-!300!-5!c'', rname := ''chr1'',
                  pos := 301, flag := 147, correct := 1 \<rparr>)"
  by (simp add: set_correctness_eval)

lemma ex_label_wgsim_near:
  "set_correctness ''qsim'' (CHR ''!'') 30
     (clear \<lparr> qname := ''11_25006153_25006410_0:0:0_0:0:0_100_100_1_1/1'', rname := ''11'',
              pos := 25006182, flag := 131 \<rparr>)
   = Inr (clear \<lparr> qname := ''11_25006153_25006410_0:0:0_0:0:0_100_100_1_1/1'', rname := ''11'',
                  pos := 25006182, flag := 131, correct := 1 \<rparr>)"
  by (simp add: set_correctness_eval)

lemma ex_dec_val:
  "dec_val ''99'' = 99" "dec_val ''300'' = 300" "dec_val ''100'' = 100" "dec_val ''0'' = 0"
  "dec_val ''25006153'' = 25006153" "dec_val ''25006410'' = 25006410"
  by (simp_all add: dec_val_def dec_from_def digit_val_def)


text \<open>
  Claim C8 says that the label is 1 (correct) only when the distance between the
  reported and the true position is strictly below \<^verbatim>\<open>wiggle\<close> and the other compared
  fields match. The function does not keep to it on a record flagged as mate 2 whose
  name is the unpaired form. For a record flagged as mate 2 every comparison against the
  first block of the name is skipped (lines 529, 539 and 552 test
  \<^verbatim>\<open>mate_flag() != '2'\<close> first), and a name whose tag is \<^verbatim>\<open>u\<close> returns at line 577
  with the label 1, under the comment \<^verbatim>\<open>unpaired and correct\<close>, before the second block
  is looked for. Nothing has been compared: here the name gives offset 99, the record
  is at offset 4999, the tolerance is 30, and the label is 1. The docstring of the
  function has the label set \<^verbatim>\<open>according to whether the alignment is correct\<close>.
\<close>

theorem set_correctness_mate2_unpaired_name:
  "set_correctness ''qsim'' (CHR ''!'') 30
     (clear \<lparr> qname := ''qsim!chr1!+!99!-12!u'', rname := ''chr1'', pos := 5000,
              flag := 131 \<rparr>)
   = Inr (clear \<lparr> qname := ''qsim!chr1!+!99!-12!u'', rname := ''chr1'', pos := 5000,
                  flag := 131, correct := 1 \<rparr>)
   \<and> is_aligned (clear \<lparr> qname := ''qsim!chr1!+!99!-12!u'', rname := ''chr1'', pos := 5000,
              flag := 131 \<rparr>)
   \<and> ''qsim!chr1!+!99!-12!u''
       = ''qsim'' @ ''!'' @ qtip_block (CHR ''!'') ''chr1'' True ''99'' ''-12'' @ ''!'' @ ''u''
   \<and> \<not> \<bar>int (dec_val ''99'') - (int 5000 - 1)\<bar> < 30"
  by (simp add: set_correctness_eval is_aligned_def clear_def qtip_block_def strand_char_def
      dec_val_def dec_from_def digit_val_def)

text \<open>
  What the function does keep to, on the names the two schemes write and on a record
  whose mate flag agrees with its name:

  \<^item> first scheme, record not flagged as mate 2 (unpaired or mate 1): the first block
    of the name gives reference name, strand and 0-based offset; label 1 needs the
    record's reference name and strand to be those of the block and
    \<open>\<bar>offset - (pos - 1)\<bar> < wiggle\<close>;
  \<^item> first scheme, record flagged as mate 2 with a paired name (two blocks and a tag
    that does not end in \<^verbatim>\<open>u\<close>): the same against the second block;
  \<^item> second scheme: label 1 needs the reference name to match and
    \<open>\<bar>pos - true_pos\<bar> < wiggle\<close>, where \<open>true_pos\<close> is the fragment start, or the fragment
    end minus the mate's length plus one, by the flip flag and the mate role;
  \<^item> the label (or the failure) is a function of the name, the reference name, the
    flag and the position alone.

  The fields of a name do not contain the separator, the numbers are decimal digits,
  and positions are below \<open>2 ^ 31\<close>.
\<close>

lemma set_correctness_within_wiggle:
  "(qname al = sim_startswith @ [sim_sep] @ qtip_block sim_sep rn fw off sc @ [sim_sep] @ tail
      \<and> mate_flag al \<noteq> CHR ''2''
      \<and> sim_sep \<notin> set rn \<and> sim_sep \<notin> set (rname al) \<and> \<not> isdigit sim_sep
      \<and> list_all isdigit off \<and> dec_val off < 2 ^ 31 \<and> 0 < pos al \<and> pos al < 2 ^ 31
      \<and> set_correctness sim_startswith sim_sep wiggle al = Inr al'
    \<longrightarrow> (correct al' = 1 \<longrightarrow>
           rn = rname al \<and> fw = is_fw al
           \<and> \<bar>int (dec_val off) - (int (pos al) - 1)\<bar> < wiggle)
        \<and> (\<bar>int (dec_val off) - (int (pos al) - 1)\<bar> = wiggle \<longrightarrow> correct al' \<noteq> 1))
   \<and> (qname al = sim_startswith @ [sim_sep] @ qtip_block sim_sep rn1 fw1 off1 sc1
                    @ [sim_sep] @ qtip_block sim_sep rn2 fw2 off2 sc2 @ [sim_sep] @ tag
      \<and> mate_flag al = CHR ''2''
      \<and> sim_sep \<notin> set (rn1 @ off1 @ sc1 @ rn2 @ off2 @ sc2 @ tag @ ''+-'')
      \<and> sim_sep \<notin> set (rname al) \<and> \<not> isdigit sim_sep
      \<and> list_all (\<lambda>c. \<not> isspace c \<and> c \<noteq> CHR 0x00) (qname al)
      \<and> tag \<noteq> [] \<and> last tag \<noteq> CHR ''u''
      \<and> list_all isdigit off2 \<and> dec_val off2 < 2 ^ 31 \<and> 0 < pos al \<and> pos al < 2 ^ 31
      \<and> set_correctness sim_startswith sim_sep wiggle al = Inr al'
    \<longrightarrow> (correct al' = 1 \<longrightarrow>
           rn2 = rname al \<and> fw2 = is_fw al
           \<and> \<bar>int (dec_val off2) - (int (pos al) - 1)\<bar> < wiggle)
        \<and> (\<bar>int (dec_val off2) - (int (pos al) - 1)\<bar> = wiggle \<longrightarrow> correct al' \<noteq> 1))
   \<and> (qname al = wgsim_name rn frag_start frag_end params last_param len1 len2 flip tail
      \<and> \<not> spec_qtip_name sim_startswith (qname al)
      \<and> CHR ''_'' \<notin> set rn \<and> CHR ''_'' \<notin> set (rname al)
      \<and> count_list params (CHR '':'') = 3
      \<and> list_all isdigit (frag_start @ frag_end @ last_param @ len1 @ len2)
      \<and> dec_val frag_start < 2 ^ 31 \<and> dec_val frag_end < 2 ^ 31
      \<and> dec_val len1 \<le> dec_val frag_end \<and> dec_val len2 \<le> dec_val frag_end
      \<and> 0 < pos al \<and> pos al < 2 ^ 31
      \<and> true_pos = (if (flip \<noteq> CHR ''1'') = (mate_flag al \<noteq> CHR ''2'')
                    then int (dec_val frag_start)
                    else int (dec_val frag_end)
                         - int (dec_val (if mate_flag al \<noteq> CHR ''2'' then len1 else len2)) + 1)
      \<and> set_correctness sim_startswith sim_sep wiggle al = Inr al'
    \<longrightarrow> (correct al' = 1 \<longrightarrow> rn = rname al \<and> \<bar>int (pos al) - true_pos\<bar> < wiggle)
        \<and> (\<bar>int (pos al) - true_pos\<bar> = wiggle \<longrightarrow> correct al' \<noteq> 1))
   \<and> (qname al1 = qname al2 \<and> rname al1 = rname al2 \<and> flag al1 = flag al2
      \<and> pos al1 = pos al2 \<and> correct al1 = correct al2
    \<longrightarrow> map_sum id correct (set_correctness sim_startswith sim_sep wiggle al1)
        = map_sum id correct (set_correctness sim_startswith sim_sep wiggle al2))"
proof (intro conjI impI)
  assume a: "qname al = sim_startswith @ [sim_sep] @ qtip_block sim_sep rn fw off sc @ [sim_sep] @ tail
      \<and> mate_flag al \<noteq> CHR ''2''
      \<and> sim_sep \<notin> set rn \<and> sim_sep \<notin> set (rname al) \<and> \<not> isdigit sim_sep
      \<and> list_all isdigit off \<and> dec_val off < 2 ^ 31 \<and> 0 < pos al \<and> pos al < 2 ^ 31
      \<and> set_correctness sim_startswith sim_sep wiggle al = Inr al'"
  have m: "rn = rname al \<and> fw = is_fw al \<and> \<bar>int (dec_val off) - (int (pos al) - 1)\<bar> < wiggle"
    if "correct al' = 1"
    using a that
    by - (rule first_scheme_mate1 [of al sim_startswith sim_sep rn fw off sc tail wiggle al'];
          blast)
  {
    assume "correct al' = 1"
    from m [OF this] show "rn = rname al" and "fw = is_fw al"
      and "\<bar>int (dec_val off) - (int (pos al) - 1)\<bar> < wiggle" by simp_all
  }
  assume "\<bar>int (dec_val off) - (int (pos al) - 1)\<bar> = wiggle"
  with m show "correct al' \<noteq> 1" by auto
next
  assume a: "qname al = sim_startswith @ [sim_sep] @ qtip_block sim_sep rn1 fw1 off1 sc1
                    @ [sim_sep] @ qtip_block sim_sep rn2 fw2 off2 sc2 @ [sim_sep] @ tag
      \<and> mate_flag al = CHR ''2''
      \<and> sim_sep \<notin> set (rn1 @ off1 @ sc1 @ rn2 @ off2 @ sc2 @ tag @ ''+-'')
      \<and> sim_sep \<notin> set (rname al) \<and> \<not> isdigit sim_sep
      \<and> list_all (\<lambda>c. \<not> isspace c \<and> c \<noteq> CHR 0x00) (qname al)
      \<and> tag \<noteq> [] \<and> last tag \<noteq> CHR ''u''
      \<and> list_all isdigit off2 \<and> dec_val off2 < 2 ^ 31 \<and> 0 < pos al \<and> pos al < 2 ^ 31
      \<and> set_correctness sim_startswith sim_sep wiggle al = Inr al'"
  have m: "rn2 = rname al \<and> fw2 = is_fw al \<and> \<bar>int (dec_val off2) - (int (pos al) - 1)\<bar> < wiggle"
    if "correct al' = 1"
    using a that
    by - (rule first_scheme_mate2 [of al sim_startswith sim_sep rn1 fw1 off1 sc1 rn2 fw2 off2 sc2
          tag wiggle al']; blast)
  {
    assume "correct al' = 1"
    from m [OF this] show "rn2 = rname al" and "fw2 = is_fw al"
      and "\<bar>int (dec_val off2) - (int (pos al) - 1)\<bar> < wiggle" by simp_all
  }
  assume "\<bar>int (dec_val off2) - (int (pos al) - 1)\<bar> = wiggle"
  with m show "correct al' \<noteq> 1" by auto
next
  assume a: "qname al = wgsim_name rn frag_start frag_end params last_param len1 len2 flip tail
      \<and> \<not> spec_qtip_name sim_startswith (qname al)
      \<and> CHR ''_'' \<notin> set rn \<and> CHR ''_'' \<notin> set (rname al)
      \<and> count_list params (CHR '':'') = 3
      \<and> list_all isdigit (frag_start @ frag_end @ last_param @ len1 @ len2)
      \<and> dec_val frag_start < 2 ^ 31 \<and> dec_val frag_end < 2 ^ 31
      \<and> dec_val len1 \<le> dec_val frag_end \<and> dec_val len2 \<le> dec_val frag_end
      \<and> 0 < pos al \<and> pos al < 2 ^ 31
      \<and> true_pos = (if (flip \<noteq> CHR ''1'') = (mate_flag al \<noteq> CHR ''2'')
                    then int (dec_val frag_start)
                    else int (dec_val frag_end)
                         - int (dec_val (if mate_flag al \<noteq> CHR ''2'' then len1 else len2)) + 1)
      \<and> set_correctness sim_startswith sim_sep wiggle al = Inr al'"
  have m: "rn = rname al \<and> \<bar>int (pos al) - true_pos\<bar> < wiggle" if c: "correct al' = 1"
  proof -
    from a have "rn = rname al
     \<and> \<bar>int (pos al)
          - (if (flip \<noteq> CHR ''1'') = (mate_flag al \<noteq> CHR ''2'') then int (dec_val frag_start)
             else int (dec_val frag_end)
                  - int (dec_val (if mate_flag al \<noteq> CHR ''2'' then len1 else len2)) + 1)\<bar>
        < wiggle"
      using c
      by - (rule second_scheme [of al rn frag_start frag_end params last_param len1 len2 flip tail
            sim_startswith sim_sep wiggle al']; blast)
    with a show ?thesis by simp
  qed
  {
    assume "correct al' = 1"
    from m [OF this] show "rn = rname al" and "\<bar>int (pos al) - true_pos\<bar> < wiggle" by simp_all
  }
  assume "\<bar>int (pos al) - true_pos\<bar> = wiggle"
  with m show "correct al' \<noteq> 1" by auto
next
  assume "qname al1 = qname al2 \<and> rname al1 = rname al2 \<and> flag al1 = flag al2
      \<and> pos al1 = pos al2 \<and> correct al1 = correct al2"
  then show "map_sum id correct (set_correctness sim_startswith sim_sep wiggle al1)
        = map_sum id correct (set_correctness sim_startswith sim_sep wiggle al2)"
    by (intro label_depends_on) simp_all
qed

lemma set_correctness_within_wiggle_example:
  "set_correctness ''qsim'' (CHR ''!'') 30
     (clear \<lparr> qname := ''qsim!chr1!+!99!-12!u'', rname := ''chr1'', pos := 129 \<rparr>)
   = Inr (clear \<lparr> qname := ''qsim!chr1!+!99!-12!u'', rname := ''chr1'', pos := 129,
                  correct := 1 \<rparr>)
   \<and> ''qsim!chr1!+!99!-12!u''
       = ''qsim'' @ ''!'' @ qtip_block (CHR ''!'') ''chr1'' True ''99'' ''-12'' @ ''!'' @ ''u''
   \<and> \<bar>int (dec_val ''99'') - (int 129 - 1)\<bar> < 30
   \<and> \<bar>int (dec_val ''99'') - (int 130 - 1)\<bar> = 30
   \<and> correct (clear \<lparr> qname := ''qsim!chr1!+!99!-12!u'', rname := ''chr1'', pos := 130,
                       correct := 0 \<rparr>) \<noteq> 1
   \<and> set_correctness ''qsim'' (CHR ''!'') 30
       (clear \<lparr> qname := ''qsim!chr1!+!99!-12!chr1!-!300!-5!c'', rname := ''chr1'', pos := 301,
                flag := 147 \<rparr>)
     = Inr (clear \<lparr> qname := ''qsim!chr1!+!99!-12!chr1!-!300!-5!c'', rname := ''chr1'',
                    pos := 301, flag := 147, correct := 1 \<rparr>)
   \<and> \<bar>int (dec_val ''300'') - (int 301 - 1)\<bar> < 30
   \<and> set_correctness ''qsim'' (CHR ''!'') 30
       (clear \<lparr> qname := ''11_25006153_25006410_0:0:0_0:0:0_100_100_1_1/1'', rname := ''11'',
                pos := 25006182, flag := 131 \<rparr>)
     = Inr (clear \<lparr> qname := ''11_25006153_25006410_0:0:0_0:0:0_100_100_1_1/1'',
                    rname := ''11'', pos := 25006182, flag := 131, correct := 1 \<rparr>)
   \<and> ''11_25006153_25006410_0:0:0_0:0:0_100_100_1_1/1''
       = wgsim_name ''11'' ''25006153'' ''25006410'' ''0:0:0_0:0'' ''0'' ''100'' ''100''
           (CHR ''1'') ''_1/1''
   \<and> \<bar>int 25006182 - int (dec_val ''25006153'')\<bar> < 30
   \<and> map_sum id correct (set_correctness ''qsim'' (CHR ''!'') 30
       (clear \<lparr> qname := ''qsim!chr1!+!99!-12!u'', rname := ''chr1'', pos := 129,
                mapq := 60 \<rparr>)) = Inr 1"
proof -
  let ?u = "clear \<lparr> qname := ''qsim!chr1!+!99!-12!u'', rname := ''chr1'', pos := 129 \<rparr>"
  let ?v = "clear \<lparr> qname := ''qsim!chr1!+!99!-12!u'', rname := ''chr1'', pos := 130 \<rparr>"
  let ?m = "clear \<lparr> qname := ''qsim!chr1!+!99!-12!chr1!-!300!-5!c'', rname := ''chr1'',
                    pos := 301, flag := 147 \<rparr>"
  let ?w = "clear \<lparr> qname := ''11_25006153_25006410_0:0:0_0:0:0_100_100_1_1/1'',
                    rname := ''11'', pos := 25006182, flag := 131 \<rparr>"
  note a = set_correctness_within_wiggle [where sim_startswith = "''qsim''"
      and sim_sep = "CHR ''!''" and wiggle = 30 and al = ?u and al' = "?u \<lparr> correct := 1 \<rparr>"
      and rn = "''chr1''" and fw = True and off = "''99''" and sc = "''-12''" and tail = "''u''",
      THEN conjunct1]
  note a' = set_correctness_within_wiggle [where sim_startswith = "''qsim''"
      and sim_sep = "CHR ''!''" and wiggle = 30 and al = ?v and al' = "?v \<lparr> correct := 0 \<rparr>"
      and rn = "''chr1''" and fw = True and off = "''99''" and sc = "''-12''" and tail = "''u''",
      THEN conjunct1]
  note b = set_correctness_within_wiggle [where sim_startswith = "''qsim''"
      and sim_sep = "CHR ''!''" and wiggle = 30 and al = ?m and al' = "?m \<lparr> correct := 1 \<rparr>"
      and ?rn1.0 = "''chr1''" and ?fw1.0 = True and ?off1.0 = "''99''" and ?sc1.0 = "''-12''"
      and ?rn2.0 = "''chr1''" and ?fw2.0 = False and ?off2.0 = "''300''" and ?sc2.0 = "''-5''"
      and tag = "''c''", THEN conjunct2, THEN conjunct1]
  note c = set_correctness_within_wiggle [where sim_startswith = "''qsim''"
      and sim_sep = "CHR ''!''" and wiggle = 30 and al = ?w and al' = "?w \<lparr> correct := 1 \<rparr>"
      and rn = "''11''" and frag_start = "''25006153''" and frag_end = "''25006410''"
      and params = "''0:0:0_0:0''" and last_param = "''0''" and ?len1.0 = "''100''"
      and ?len2.0 = "''100''" and flip = "CHR ''1''" and tail = "''_1/1''"
      and true_pos = 25006153, THEN conjunct2, THEN conjunct2, THEN conjunct1]
  note d = set_correctness_within_wiggle [where sim_startswith = "''qsim''"
      and sim_sep = "CHR ''!''" and wiggle = 30 and ?al1.0 = ?u and ?al2.0 = "?u \<lparr> mapq := 60 \<rparr>",
      THEN conjunct2, THEN conjunct2, THEN conjunct2]
  show ?thesis
    using a a' b c d ex_label_unpaired_near ex_label_unpaired_far ex_label_mate2
      ex_label_wgsim_near
    by (simp add: ex_dec_val qtip_block_def strand_char_def wgsim_name_def spec_qtip_name_def
        mate_flag_def is_fw_def clear_def isdigit_def isspace_def)
qed

subsection \<open>A comparison that fails gives the label 0\<close>



lemma starts_with_self: "starts_with (nm @ R) nm"
  by (simp add: starts_with_def)










end
